theory Spec2Isabelle
  imports Complex_Main
begin

section \<open>Values shared by the server and the prediction engine\<close>

text \<open>
  C++ exceptions are values. Every exception class the code can meet derives from
  \<open>std::exception\<close>, so \<open>catch (const std::exception& e)\<close> catches each of them and
  \<open>e.what()\<close> is the message carried by the constructor.
\<close>

datatype exn =
    runtime_error string
  | out_of_range string
  | invalid_argument string
  | c10_Error string
  | out_of_bounds_read

text \<open>
  \<open>out_of_bounds_read\<close> is not an exception of C++: it marks a read outside a tensor's
  storage, where C++ leaves the behaviour undefined. The model stops there as at a
  throw, and nothing is claimed about what follows it.
\<close>

fun what :: "exn \<Rightarrow> string" where
  "what (runtime_error m) = m"
| "what (out_of_range m) = m"
| "what (invalid_argument m) = m"
| "what (c10_Error m) = m"
| "what out_of_bounds_read = []"

text \<open>
  A \<open>float\<close> is finite, an infinity or a NaN, each with its sign bit. The finite value
  \<open>Fin neg m e\<close> is \<open>m * 2 ^ e\<close> with \<open>0 \<le> m\<close>, negated when \<open>neg\<close> holds; minus zero is
  \<open>Fin True 0 0\<close>. The values of binary32 have \<open>m < 2 ^ 24\<close> and \<open>- 149 \<le> e\<close>. The
  conversion from text below returns them with \<open>m\<close> odd (or zero), so that \<open>7.0\<close> is
  \<open>Fin False 7 0\<close> and \<open>0.5\<close> is \<open>Fin False 1 (- 1)\<close>.
\<close>

datatype float = Fin bool int int | Infty bool | NaN bool

text \<open>
  A tensor is its shape and its elements in row-major order. The tensors of this program
  hold \<open>float\<close>s (\<open>torch::kFloat\<close>).
\<close>

datatype Tensor = Tensor (sizes: "nat list") (elems: "float list")

text \<open>
  What a TorchScript module can return (\<open>c10::IValue\<close>): a dictionary, a tensor, a
  string, or something else.
\<close>

datatype IValue =
    GenericDict "(IValue \<times> IValue) list"
  | TensorValue Tensor
  | StringValue string
  | OtherValue

text \<open>
  \<open>torch::Dict<std::string, torch::Tensor>\<close> keeps its entries in insertion order and
  iterates in that order: an association list. \<open>insert\<close> leaves the dictionary alone
  when the key is already there.
\<close>

type_synonym Dict = "(string \<times> Tensor) list"

definition dict_insert :: "Dict \<Rightarrow> string \<Rightarrow> Tensor \<Rightarrow> Dict" where
  "dict_insert d k v = (if k \<in> fst ` set d then d else d @ [(k, v)])"

text \<open>
  The loaded module is opaque: all the server sees of it is what \<open>forward\<close> returns on
  an input tensor, a value or an exception.
\<close>

type_synonym Module = "Tensor \<Rightarrow> exn + IValue"

text \<open>
  The effects a call leaves behind, in the order they happen: a line on a console
  stream, an evaluation of the module, bytes sent to the client, the client socket
  closed, a handler thread started for a client socket, the listening socket closed.
\<close>

datatype effect =
    Cout string
  | Cerr string
  | Forward Tensor
  | Send string
  | Close_client
  | Dispatch int
  | Close_server

section \<open>ModelLoader (model\_loader.h, model\_loader.cpp)\<close>

record ModelLoader =
  model_path :: string
  model :: Module
  loaded :: bool
  input_size :: int

text \<open>A default-constructed \<open>torch::jit::script::Module\<close> has no \<open>forward\<close> method.\<close>

definition default_Module :: Module where
  "default_Module = (\<lambda>t. Inl (c10_Error ''Method 'forward' is not defined.''))"

text \<open>
  The members \<open>model_path_\<close>, \<open>model_\<close>, \<open>loaded_\<close> and \<open>input_size_\<close> are the fields
  above without the trailing underscore. The constructor's initialiser list is
  \<open>model_path_(model_path), loaded_(false), input_size_(16)\<close>.
\<close>

definition ModelLoader_new :: "string \<Rightarrow> ModelLoader" where
  "ModelLoader_new path =
     \<lparr> model_path = path, model = default_Module, loaded = False, input_size = 16 \<rparr>"

definition get_input_size :: "ModelLoader \<Rightarrow> int" where
  "get_input_size ml = input_size ml"

definition is_loaded :: "ModelLoader \<Rightarrow> bool" where
  "is_loaded ml = loaded ml"

text \<open>
  \<open>load\<close>: \<open>torch::jit::load(model_path)\<close> reads the file system, so its outcome is an
  argument: the module read, or the exception thrown. The result is the console
  output, the returned flag and the loader afterwards.
\<close>

definition load :: "(string \<Rightarrow> exn + Module) \<Rightarrow> ModelLoader \<Rightarrow> effect list \<times> bool \<times> ModelLoader" where
  "load jit_load ml =
     (case jit_load (model_path ml) of
        Inr m \<Rightarrow>
          ([Cout (''Loading TorchScript model from: '' @ model_path ml),
            Cout ''Model loaded successfully!''],
           True, ml\<lparr> model := m, loaded := True \<rparr>)
      | Inl e \<Rightarrow>
          ([Cout (''Loading TorchScript model from: '' @ model_path ml),
            Cerr (''Error loading model: '' @ what e)],
           False, ml\<lparr> loaded := False \<rparr>))"

text \<open>
  The loop of \<open>predict\<close> over the generic dictionary: \<open>toStringRef\<close> and \<open>toTensor\<close>
  throw on a value of another kind.
\<close>

fun to_string_tensor_dict :: "(IValue \<times> IValue) list \<Rightarrow> Dict \<Rightarrow> exn + Dict" where
  "to_string_tensor_dict [] acc = Inr acc"
| "to_string_tensor_dict ((StringValue k, TensorValue v) # items) acc =
     to_string_tensor_dict items (dict_insert acc k v)"
| "to_string_tensor_dict ((StringValue k, _) # items) acc =
     Inl (c10_Error ''Expected Tensor but got another type'')"
| "to_string_tensor_dict (_ # items) acc =
     Inl (c10_Error ''Expected String but got another type'')"

text \<open>
  \<open>predict\<close>: the guard on \<open>loaded\<close> comes first and throws before the module is
  touched; otherwise the module is evaluated once, and a failure inside the \<open>try\<close> is
  logged and thrown again.
\<close>

definition predict :: "ModelLoader \<Rightarrow> Tensor \<Rightarrow> effect list \<times> (exn + Dict)" where
  "predict ml input_tensor =
     (if \<not> loaded ml then ([], Inl (runtime_error ''Model not loaded''))
      else
        (case model ml input_tensor of
           Inl e \<Rightarrow> ([Forward input_tensor, Cerr (''Error during inference: '' @ what e)], Inl e)
         | Inr out \<Rightarrow>
             (case (case out of
                      GenericDict items \<Rightarrow> to_string_tensor_dict items []
                    | _ \<Rightarrow> Inl (c10_Error ''Expected GenericDict but got another type'')) of
                Inl e \<Rightarrow> ([Forward input_tensor, Cerr (''Error during inference: '' @ what e)], Inl e)
              | Inr result \<Rightarrow> ([Forward input_tensor], Inr result))))"

text \<open>
  The operations a client of a \<open>ModelLoader\<close> can perform after constructing it, and
  the loader each leaves behind (\<open>predict\<close> does not assign to any member).
\<close>

datatype loader_op = Load "string \<Rightarrow> exn + Module" | Predict Tensor

fun loader_step :: "ModelLoader \<Rightarrow> loader_op \<Rightarrow> ModelLoader" where
  "loader_step ml (Load jit_load) = snd (snd (load jit_load ml))"
| "loader_step ml (Predict t) = ml"

section \<open>The regular expressions of the decoder (std::regex, ECMAScript grammar)\<close>

text \<open>
  The two patterns of \<open>parse_input_json\<close> use literal characters, character classes,
  the greedy quantifiers \<open>*\<close>, \<open>+\<close> and \<open>?\<close>, and capture groups. A class matches one
  character: a literal, a bracket set, a negated bracket set, a range, or \<open>\s\<close> (the
  white space of the C locale).
\<close>

datatype cls = Lit char | Set "char list" | NotSet "char list" | Range char char | Space

fun cls_match :: "cls \<Rightarrow> char \<Rightarrow> bool" where
  "cls_match (Lit a) c = (c = a)"
| "cls_match (Set as) c = (c \<in> set as)"
| "cls_match (NotSet as) c = (c \<notin> set as)"
| "cls_match (Range lo hi) c = ((of_char lo :: nat) \<le> of_char c \<and> (of_char c :: nat) \<le> of_char hi)"
| "cls_match Space c = (c \<in> set [CHR 0x20, CHR 0x09, CHR 0x0A, CHR 0x0B, CHR 0x0C, CHR 0x0D])"

text \<open>
  A pattern is a sequence of pieces. \<open>Star\<close> and \<open>Plus\<close> repeat one class, which is all
  the two patterns need; \<open>Opt\<close> is \<open>(?: ... )?\<close> and \<open>Grp n\<close> is the capture group
  number \<open>n\<close>.
\<close>

datatype rx = One cls | Star cls | Plus cls | Opt "rx list" | Grp nat "rx list"

text \<open>
  The matcher is the backtracking matcher of the ECMAScript grammar: it works through a
  stack of what is still to match, prefers the longer repetition and the present
  option, and returns the first way that succeeds, as the rest of the input and the
  text of the groups. \<open>Mark n s0\<close> on the stack closes group \<open>n\<close>, which was opened when the
  input was \<open>s0\<close>.
\<close>

datatype frame = Rx rx | Mark nat string

type_synonym groups = "nat \<rightharpoonup> string"

fun rx_size :: "rx \<Rightarrow> nat" where
  "rx_size (One a) = 1"
| "rx_size (Star a) = 1"
| "rx_size (Plus a) = 3"
| "rx_size (Opt rs) = 1 + sum_list (map rx_size rs)"
| "rx_size (Grp n rs) = 2 + sum_list (map rx_size rs)"

fun frame_size :: "frame \<Rightarrow> nat" where
  "frame_size (Rx r) = rx_size r"
| "frame_size (Mark n s) = 1"

function rmatch :: "frame list \<Rightarrow> string \<Rightarrow> groups \<Rightarrow> (string \<times> groups) option" where
  "rmatch [] s g = Some (s, g)"
| "rmatch (Rx (One a) # k) [] g = None"
| "rmatch (Rx (One a) # k) (c # cs) g = (if cls_match a c then rmatch k cs g else None)"
| "rmatch (Rx (Star a) # k) [] g = rmatch k [] g"
| "rmatch (Rx (Star a) # k) (c # cs) g =
     (if cls_match a c
      then (case rmatch (Rx (Star a) # k) cs g of
              Some r \<Rightarrow> Some r
            | None \<Rightarrow> rmatch k (c # cs) g)
      else rmatch k (c # cs) g)"
| "rmatch (Rx (Plus a) # k) s g = rmatch (Rx (One a) # Rx (Star a) # k) s g"
| "rmatch (Rx (Opt rs) # k) s g =
     (case rmatch (map Rx rs @ k) s g of
        Some r \<Rightarrow> Some r
      | None \<Rightarrow> rmatch k s g)"
| "rmatch (Rx (Grp n rs) # k) s g = rmatch (map Rx rs @ Mark n s # k) s g"
| "rmatch (Mark n s0 # k) s g = rmatch k s (g(n \<mapsto> take (length s0 - length s) s0))"
  by pat_completeness auto
termination
  by (relation "measures [\<lambda>(k, s, g). length s, \<lambda>(k, s, g). sum_list (map frame_size k)]")
     (auto simp: comp_def)

text \<open>
  \<open>std::regex_search\<close>: the first position of the input, from the left, where the
  pattern matches. The result is the matched text, the input after it and the groups.
\<close>

fun regex_search :: "rx list \<Rightarrow> string \<Rightarrow> (string \<times> string \<times> groups) option" where
  "regex_search rs [] =
     (case rmatch (map Rx rs) [] Map.empty of
        Some (r, g) \<Rightarrow> Some ([], r, g)
      | None \<Rightarrow> None)"
| "regex_search rs (c # cs) =
     (case rmatch (map Rx rs) (c # cs) Map.empty of
        Some (r, g) \<Rightarrow> Some (take (length (c # cs) - length r) (c # cs), r, g)
      | None \<Rightarrow> regex_search rs cs)"

text \<open>\<^verbatim>\<open>"features"\s*:\s*\[([^\]]+)\]\<close>\<close>

definition features_regex :: "rx list" where
  "features_regex =
     map (One \<circ> Lit) ''\"features\"'' @
     [Star Space, One (Lit CHR '':''), Star Space, One (Lit CHR ''[''),
      Grp 1 [Plus (NotSet '']'')], One (Lit CHR '']'')]"

text \<open>\<^verbatim>\<open>[-+]?[0-9]*\.?[0-9]+([eE][-+]?[0-9]+)?\<close>\<close>

definition number_regex :: "rx list" where
  "number_regex =
     [Opt [One (Set ''-+'')], Star (Range CHR ''0'' CHR ''9''), Opt [One (Lit CHR ''.'')],
      Plus (Range CHR ''0'' CHR ''9''),
      Opt [Grp 1 [One (Set ''eE''), Opt [One (Set ''-+'')], Plus (Range CHR ''0'' CHR ''9'')]]]"

text \<open>
  The least number of characters a piece consumes. A match of a stack consumes at least
  the sum over its frames, so a match of \<open>number_regex\<close> is never empty.
\<close>

fun rx_min :: "rx \<Rightarrow> nat" where
  "rx_min (One a) = 1"
| "rx_min (Star a) = 0"
| "rx_min (Plus a) = 1"
| "rx_min (Opt rs) = 0"
| "rx_min (Grp n rs) = sum_list (map rx_min rs)"

fun frame_min :: "frame \<Rightarrow> nat" where
  "frame_min (Rx r) = rx_min r"
| "frame_min (Mark n s) = 0"

lemma rmatch_consumes:
  "rmatch k s g = Some (r, g') \<Longrightarrow> length r + sum_list (map frame_min k) \<le> length s"
proof (induction k s g arbitrary: r g' rule: rmatch.induct)
  case (5 a k c cs g)
  then show ?case
    by (fastforce split: if_splits option.splits)
next
  case (7 rs k s g)
  then show ?case
    by (fastforce split: option.splits simp: comp_def)
qed (fastforce split: if_splits simp: comp_def)+

lemma frame_min_Rx: "sum_list (map frame_min (map Rx rs)) = sum_list (map rx_min rs)"
  by (induction rs) simp_all

lemma rmatch_shorter:
  assumes "rmatch (map Rx rs) s g = Some (r, g')" and "0 < sum_list (map rx_min rs)"
  shows "length r < length s"
proof -
  from rmatch_consumes [OF assms(1)] have "length r + sum_list (map rx_min rs) \<le> length s"
    by (simp only: frame_min_Rx)
  with assms(2) show ?thesis by linarith
qed

lemma regex_search_shorter:
  "regex_search rs s = Some (m, r, g) \<Longrightarrow> 0 < sum_list (map rx_min rs) \<Longrightarrow> length r < length s"
proof (induction s)
  case Nil
  from Nil(1) have "rmatch (map Rx rs) [] Map.empty = Some (r, g)"
    by (auto split: option.splits)
  from rmatch_shorter [OF this Nil(2)] show ?case .
next
  case (Cons c cs)
  show ?case
  proof (cases "rmatch (map Rx rs) (c # cs) Map.empty")
    case None
    with Cons show ?thesis by fastforce
  next
    case (Some p)
    with Cons.prems(1) have "rmatch (map Rx rs) (c # cs) Map.empty = Some (r, g)"
      by (cases p) simp
    from rmatch_shorter [OF this Cons.prems(2)] show ?thesis .
  qed
qed

text \<open>
  The loop over \<open>std::sregex_iterator\<close> for \<open>number_regex\<close>: the matches from left to
  right, each search starting where the previous match ended. The iterator's special
  case for an empty match never applies, a match of \<open>number_regex\<close> having a digit.
\<close>

function number_tokens :: "string \<Rightarrow> string list" where
  "number_tokens s =
     (case regex_search number_regex s of
        None \<Rightarrow> []
      | Some (m, r, g) \<Rightarrow> m # number_tokens r)"
  by pat_completeness auto
termination
  by (relation "measure length") (auto simp: number_regex_def dest!: regex_search_shorter)

section \<open>Numbers and text (the C and C++ library functions the server calls)\<close>

definition isdigit :: "char \<Rightarrow> bool" where
  "isdigit c = (c \<in> set ''0123456789'')"

definition isspace :: "char \<Rightarrow> bool" where
  "isspace c = (c \<in> set [CHR 0x20, CHR 0x09, CHR 0x0A, CHR 0x0B, CHR 0x0C, CHR 0x0D])"

definition digit_val :: "char \<Rightarrow> int" where
  "digit_val c = of_char c - 48"

definition digits_val :: "string \<Rightarrow> int" where
  "digits_val ds = foldl (\<lambda>n c. 10 * n + digit_val c) 0 ds"

definition digit_char :: "int \<Rightarrow> char" where
  "digit_char d = ''0123456789'' ! nat d"

text \<open>The decimal digits of a number that is not negative.\<close>

function decimal :: "int \<Rightarrow> string" where
  "decimal n = (if n < 10 then [digit_char n] else decimal (n div 10) @ [digit_char (n mod 10)])"
  by pat_completeness auto
termination
  by (relation "measure nat") auto

declare decimal.simps [simp del]

text \<open>\<open>std::to_string\<close> on an integer: its decimal digits, after a minus sign when negative.\<close>

definition to_string :: "int \<Rightarrow> string" where
  "to_string i = (if i < 0 then CHR ''-'' # decimal (- i) else decimal i)"

text \<open>\<open>std::string::find\<close>: the index of the first occurrence, or \<open>npos\<close> (\<open>None\<close>).\<close>

fun find_str :: "string \<Rightarrow> string \<Rightarrow> nat option" where
  "find_str [] pat = (if pat = [] then Some 0 else None)"
| "find_str (c # cs) pat =
     (if take (length pat) (c # cs) = pat then Some 0 else map_option Suc (find_str cs pat))"

subsection \<open>std::stof\<close>

text \<open>The number of bits of a positive number: \<open>2 ^ (bit_length n - 1) \<le> n < 2 ^ bit_length n\<close>.\<close>

function bit_length :: "int \<Rightarrow> int" where
  "bit_length n = (if n \<le> 0 then 0 else 1 + bit_length (n div 2))"
  by pat_completeness auto
termination
  by (relation "measure nat") auto

declare bit_length.simps [simp del]

text \<open>
  The exponent of the binade of \<open>n / d\<close>, for positive \<open>n\<close> and \<open>d\<close>: the \<open>e\<close> with
  \<open>2 ^ e \<le> n / d < 2 ^ (e + 1)\<close>. It is the difference of the bit lengths or one less.
\<close>

definition floor_log2 :: "int \<Rightarrow> int \<Rightarrow> int" where
  "floor_log2 n d =
     (let e0 = bit_length n - bit_length d
      in if (if 0 \<le> e0 then d * 2 ^ nat e0 \<le> n else d \<le> n * 2 ^ nat (- e0)) then e0 else e0 - 1)"

text \<open>\<open>n / d\<close> rounded to the nearest integer, a tie going to the even one.\<close>

definition round_div :: "int \<Rightarrow> int \<Rightarrow> int" where
  "round_div n d =
     (let q = n div d; r = n mod d
      in if 2 * r < d then q else if d < 2 * r then q + 1 else if even q then q else q + 1)"

text \<open>A significand and exponent with the trailing zero bits of the significand removed.\<close>

function odd_significand :: "int \<Rightarrow> int \<Rightarrow> int \<times> int" where
  "odd_significand m e =
     (if m = 0 then (0, 0) else if even m then odd_significand (m div 2) (e + 1) else (m, e))"
  by pat_completeness auto
termination
  by (relation "measure (\<lambda>(m, e). nat \<bar>m\<bar>)") auto

declare odd_significand.simps [simp del]

text \<open>
  \<open>strtof\<close> on the magnitude \<open>n / d\<close>: the nearest binary32 magnitude (a significand of
  24 bits at the exponent of the binade, which is at least \<open>-126\<close>; ties to even), or
  \<open>None\<close> where \<open>strtof\<close> sets \<open>errno\<close> to \<open>ERANGE\<close>: on overflow (the rounded magnitude
  reaches \<open>2 ^ 128\<close>), and (as glibc does) on a result that is inexact and tiny. glibc
  decides tininess after rounding: a magnitude is tiny when, rounded to 24 bits with no
  bound on the exponent, it stays below \<open>2 ^ (- 126)\<close>, that is when it is below
  \<open>2 ^ (- 126) - 2 ^ (- 151)\<close>.
\<close>

definition round_binary32 :: "int \<Rightarrow> int \<Rightarrow> (int \<times> int) option" where
  "round_binary32 n d =
     (if n = 0 then Some (0, 0)
      else
        (let k = max (floor_log2 n d) (- 126) - 23;
             n' = (if 0 \<le> k then n else n * 2 ^ nat (- k));
             d' = (if 0 \<le> k then d * 2 ^ nat k else d);
             m = round_div n' d'
         in if 0 \<le> k \<and> 2 ^ 128 \<le> m * 2 ^ nat k then None
            else if m * d' \<noteq> n' \<and> n * 2 ^ 151 < d * (2 ^ 25 - 1) then None
            else Some (odd_significand m k)))"

text \<open>The exponent part at the head of a text: \<open>e\<close> or \<open>E\<close>, an optional sign, digits.\<close>

definition exponent_part :: "string \<Rightarrow> int" where
  "exponent_part s =
     (case s of
        [] \<Rightarrow> 0
      | c # cs \<Rightarrow>
          if c = CHR ''e'' \<or> c = CHR ''E'' then
            (case cs of
               [] \<Rightarrow> 0
             | d # ds \<Rightarrow>
                 if d = CHR ''-'' then - digits_val (takeWhile isdigit ds)
                 else if d = CHR ''+'' then digits_val (takeWhile isdigit ds)
                 else digits_val (takeWhile isdigit cs))
          else 0)"

text \<open>
  \<open>std::stof(str)\<close> calls \<open>strtof\<close>: white space is skipped, then a sign, digits, a
  point and digits, and an exponent are read as far as they go; what follows is ignored.
  With no digit read, \<open>stof\<close> throws \<open>std::invalid_argument\<close>; with \<open>ERANGE\<close> it throws
  \<open>std::out_of_range\<close>; both carry the message \<open>stof\<close>. The decimal value, the digits
  as a number times a power of ten, is rounded once. (\<open>strtof\<close> also reads hexadecimal
  numbers and the words \<open>inf\<close> and \<open>nan\<close>. The decoder only passes texts matched by
  \<open>number_regex\<close>, made of signs, digits, points and the letters \<open>e\<close> and \<open>E\<close>, so
  these forms are left out.)
\<close>

definition stof :: "string \<Rightarrow> exn + float" where
  "stof str =
     (let s0 = dropWhile isspace str;
          neg = (case s0 of [] \<Rightarrow> False | c # cs \<Rightarrow> c = CHR ''-'');
          s1 = (case s0 of [] \<Rightarrow> [] | c # cs \<Rightarrow> if c = CHR ''-'' \<or> c = CHR ''+'' then cs else s0);
          ip = takeWhile isdigit s1;
          s2 = dropWhile isdigit s1;
          fp = (case s2 of [] \<Rightarrow> [] | c # cs \<Rightarrow> if c = CHR ''.'' then takeWhile isdigit cs else []);
          s3 = (case s2 of [] \<Rightarrow> [] | c # cs \<Rightarrow> if c = CHR ''.'' then dropWhile isdigit cs else s2)
      in if ip = [] \<and> fp = [] then Inl (invalid_argument ''stof'')
         else
           (let p = exponent_part s3 - int (length fp);
                n = (if 0 \<le> p then digits_val (ip @ fp) * 10 ^ nat p else digits_val (ip @ fp));
                d = (if 0 \<le> p then 1 else 10 ^ nat (- p))
            in case round_binary32 n d of
                 None \<Rightarrow> Inl (out_of_range ''stof'')
               | Some (m, e) \<Rightarrow> Inr (Fin neg m e)))"

subsection \<open>Writing a float with std::fixed and std::setprecision(6)\<close>

text \<open>The last \<open>w\<close> decimal digits of a number, with leading zeros.\<close>

primrec fixed_digits :: "nat \<Rightarrow> int \<Rightarrow> string" where
  "fixed_digits 0 n = []"
| "fixed_digits (Suc w) n = fixed_digits w (n div 10) @ [digit_char (n mod 10)]"

text \<open>
  The stream converts the \<open>float\<close> to \<open>double\<close> (exactly) and prints it as \<open>%.6f\<close>: the
  exact value rounded to a multiple of \<open>10 ^ (- 6)\<close>, ties to even, as its integer part,
  a point and six digits; an infinity or a NaN as a word.
\<close>

definition fixed6 :: "float \<Rightarrow> string" where
  "fixed6 x =
     (case x of
        Fin neg m e \<Rightarrow>
          (let n = (if 0 \<le> e then m * 2 ^ nat e * 10 ^ 6 else round_div (m * 10 ^ 6) (2 ^ nat (- e)))
           in (if neg then ''-'' else []) @ decimal (n div 10 ^ 6) @ ''.'' @ fixed_digits 6 (n mod 10 ^ 6))
      | Infty neg \<Rightarrow> (if neg then ''-inf'' else ''inf'')
      | NaN neg \<Rightarrow> (if neg then ''-nan'' else ''nan''))"

section \<open>InferenceServer (inference\_server.h, inference\_server.cpp)\<close>

text \<open>The members \<open>model_loader_\<close>, \<open>port_\<close> and \<open>running_\<close>.\<close>

record InferenceServer =
  model_loader :: ModelLoader
  port :: int
  running :: bool

definition InferenceServer_new :: "string \<Rightarrow> int \<Rightarrow> InferenceServer" where
  "InferenceServer_new path p =
     \<lparr> model_loader = ModelLoader_new path, port = p, running = False \<rparr>"

definition initialize ::
  "(string \<Rightarrow> exn + Module) \<Rightarrow> InferenceServer \<Rightarrow> effect list \<times> bool \<times> InferenceServer" where
  "initialize jit_load srv =
     (case load jit_load (model_loader srv) of
        (fx, ok, ml) \<Rightarrow>
          if \<not> ok then
            (Cout ''Initializing inference server...'' # fx @ [Cerr ''Failed to load model''],
             False, srv\<lparr> model_loader := ml \<rparr>)
          else
            (Cout ''Initializing inference server...'' # fx @
               [Cout (''Server initialized successfully on port '' @ to_string (port srv))],
             True, srv\<lparr> model_loader := ml \<rparr>))"

subsection \<open>parse\_input\_json\<close>

text \<open>
  The loop \<open>while (iter != end) { result.push_back(std::stof(iter->str())); ++iter; }\<close>:
  the tokens are converted in order, and the first conversion that throws ends the call.
\<close>

fun stof_all :: "string list \<Rightarrow> exn + float list" where
  "stof_all [] = Inr []"
| "stof_all (t # ts) =
     (case stof t of
        Inl e \<Rightarrow> Inl e
      | Inr x \<Rightarrow> (case stof_all ts of Inl e \<Rightarrow> Inl e | Inr xs \<Rightarrow> Inr (x # xs)))"

text \<open>
  \<open>match[1].str()\<close> is the text of group 1, and the empty string for a group that did
  not take part in the match.
\<close>

definition parse_input_json :: "string \<Rightarrow> exn + float list" where
  "parse_input_json json_str =
     (case regex_search features_regex json_str of
        Some (m, r, g) \<Rightarrow>
          (let numbers_str = (case g 1 of Some t \<Rightarrow> t | None \<Rightarrow> [])
           in stof_all (number_tokens numbers_str))
      | None \<Rightarrow> stof_all (number_tokens json_str))"

subsection \<open>outputs\_to\_json\<close>

text \<open>
  \<open>tensor.accessor<float, 2>()\<close> throws unless the tensor has two dimensions. The loop
  then reads \<open>accessor[0][i]\<close> for \<open>i < accessor.size(1)\<close>: the first \<open>size(1)\<close> elements,
  which is a read outside the storage when the tensor has no row.
\<close>

definition accessor_row0 :: "Tensor \<Rightarrow> exn + float list" where
  "accessor_row0 t =
     (case sizes t of
        [n, m] \<Rightarrow> if m \<le> length (elems t) then Inr (take m (elems t)) else Inl out_of_bounds_read
      | _ \<Rightarrow> Inl (c10_Error ''expected 2 dims''))"

text \<open>The inner loop, \<open>i\<close> counting the elements written so far.\<close>

fun values_json :: "nat \<Rightarrow> float list \<Rightarrow> string" where
  "values_json i [] = []"
| "values_json i (x # xs) = (if 0 < i then '','' else []) @ fixed6 x @ values_json (Suc i) xs"

text \<open>The outer loop with its flag \<open>first\<close>.\<close>

fun items_json :: "bool \<Rightarrow> Dict \<Rightarrow> exn + string" where
  "items_json first [] = Inr []"
| "items_json first ((key, tensor) # items) =
     (case accessor_row0 tensor of
        Inl e \<Rightarrow> Inl e
      | Inr row \<Rightarrow>
          (case items_json False items of
             Inl e \<Rightarrow> Inl e
           | Inr rest \<Rightarrow>
               Inr ((if \<not> first then '','' else []) @
                    ''\"'' @ key @ ''\":['' @ values_json 0 row @ '']'' @ rest)))"

definition outputs_to_json :: "Dict \<Rightarrow> exn + string" where
  "outputs_to_json outputs =
     (case items_json True outputs of
        Inl e \<Rightarrow> Inl e
      | Inr body \<Rightarrow> Inr (''{'' @ body @ ''}''))"

subsection \<open>process\_inference\<close>

text \<open>
  The comparison \<open>input_data.size() != model_loader_->get_input_size()\<close> is between a
  \<open>size_t\<close> and an \<open>int\<close>: the \<open>int\<close> is converted to \<open>size_t\<close>, that is taken modulo
  \<open>2 ^ 64\<close>. \<open>torch::from_blob(..., {1, size}, torch::kFloat).clone()\<close> is the tensor of
  one row holding the input.
\<close>

definition process_inference :: "InferenceServer \<Rightarrow> float list \<Rightarrow> effect list \<times> (exn + string)" where
  "process_inference srv input_data =
     (if int (length input_data) \<noteq> get_input_size (model_loader srv) mod 2 ^ 64 then
        ([], Inl (runtime_error
                    (''Input size mismatch. Expected '' @
                     to_string (get_input_size (model_loader srv)) @
                     '' but got '' @ to_string (int (length input_data)))))
      else
        (case predict (model_loader srv) (Tensor [1, length input_data] input_data) of
           (fx, Inl e) \<Rightarrow> (fx, Inl e)
         | (fx, Inr outputs) \<Rightarrow> (fx, outputs_to_json outputs)))"

subsection \<open>handle\_client\<close>

definition crlf :: string where
  "crlf = [CHR 0x0D, CHR 0x0A]"

text \<open>The \<open>catch (const std::exception& e)\<close> block.\<close>

definition handle_client_catch :: "exn \<Rightarrow> effect list" where
  "handle_client_catch e =
     (let error_response = ''{\"error\": \"'' @ what e @ ''\"}''
      in [Cerr (''Error handling client: '' @ what e),
          Send (''HTTP/1.1 500 Internal Server Error'' @ crlf @
                ''Content-Type: application/json'' @ crlf @
                ''Content-Length: '' @ to_string (int (length error_response)) @ crlf @
                crlf @
                error_response),
          Close_client])"

text \<open>
  \<open>std::string request(buffer)\<close> ends at the first zero byte. The body is what follows
  the first blank line of the request, or the whole request when it has none.
\<close>

definition request_of :: "string \<Rightarrow> string" where
  "request_of buffer = takeWhile (\<lambda>c. c \<noteq> CHR 0x00) buffer"

definition json_body_of :: "string \<Rightarrow> string" where
  "json_body_of request =
     (case find_str request (crlf @ crlf) of
        Some body_start \<Rightarrow> drop (body_start + 4) request
      | None \<Rightarrow> request)"

text \<open>
  \<open>handle_client\<close> on the bytes the client has sent. \<open>recv\<close> copies at most 4095 of them
  into the buffer; with nothing received (\<open>bytes_read <= 0\<close>) the socket is closed and
  nothing is sent.
\<close>

definition handle_client :: "InferenceServer \<Rightarrow> string \<Rightarrow> effect list" where
  "handle_client srv received =
     (let buffer = take 4095 received
      in if buffer = [] then [Close_client]
         else
           (let request = request_of buffer;
                json_body = json_body_of request;
                received_log = Cout (''Received request: '' @ take 100 request @ ''...'')
            in case parse_input_json json_body of
                 Inl e \<Rightarrow> received_log # handle_client_catch e
               | Inr input_data \<Rightarrow>
                   (case process_inference srv input_data of
                      (fx, Inl e) \<Rightarrow> received_log # fx @ handle_client_catch e
                    | (fx, Inr response) \<Rightarrow>
                        received_log # fx @
                        [Send (''HTTP/1.1 200 OK'' @ crlf @
                               ''Content-Type: application/json'' @ crlf @
                               ''Content-Length: '' @ to_string (int (length response)) @ crlf @
                               ''Access-Control-Allow-Origin: *'' @ crlf @
                               crlf @
                               response),
                         Close_client])))"

subsection \<open>run and stop\<close>

text \<open>
  \<open>running_\<close> is a \<open>std::atomic<bool>\<close>, so an execution of the accept loop together
  with calls of \<open>stop()\<close> from other threads is an interleaving of atomic actions:
  \<^item> \<open>Stop\<close>: a call of \<open>stop()\<close> stores \<open>false\<close> in \<open>running_\<close>;
  \<^item> \<open>Test\<close>: the loop evaluates its condition \<open>while (running_)\<close>, and either enters
    the body or leaves the loop, closing the listening socket;
  \<^item> \<open>Call_accept\<close>: in the body, the loop calls \<open>accept\<close> and blocks in it;
  \<^item> \<open>Accept fd\<close>: the call of \<open>accept\<close> the loop is blocked in returns \<open>fd\<close>; a
    client socket is handed to a detached handler thread, with no look at \<open>running_\<close>;
  \<^item> \<open>Check\<close>: after a failed \<open>accept\<close>, the loop evaluates \<open>if (running_)\<close>, logs, and
    continues.
  The position of the loop says which of the last four is possible.
\<close>

datatype position = At_test | Before_accept | In_accept | After_failed_accept | Loop_exited

datatype action = Stop | Test | Call_accept | Accept int | Check

record loop_state =
  flag :: bool
  pos :: position
  effects :: "effect list"

fun loop_step :: "loop_state \<Rightarrow> action \<Rightarrow> loop_state option" where
  "loop_step s Stop = Some (s\<lparr> flag := False \<rparr>)"
| "loop_step s Test =
     (if pos s = At_test then
        (if flag s then Some (s\<lparr> pos := Before_accept \<rparr>)
         else Some (s\<lparr> pos := Loop_exited, effects := effects s @ [Close_server, Cout ''Server stopped''] \<rparr>))
      else None)"
| "loop_step s Call_accept =
     (if pos s = Before_accept then Some (s\<lparr> pos := In_accept \<rparr>) else None)"
| "loop_step s (Accept client_socket) =
     (if pos s = In_accept then
        (if client_socket < 0 then Some (s\<lparr> pos := After_failed_accept \<rparr>)
         else Some (s\<lparr> pos := At_test, effects := effects s @ [Dispatch client_socket] \<rparr>))
      else None)"
| "loop_step s Check =
     (if pos s = After_failed_accept then
        (if flag s then Some (s\<lparr> pos := At_test, effects := effects s @ [Cerr ''Error accepting connection''] \<rparr>)
         else Some (s\<lparr> pos := At_test \<rparr>))
      else None)"

text \<open>A schedule is run action by action; \<open>None\<close> when an action is not possible where it stands.\<close>

fun loop_run :: "loop_state \<Rightarrow> action list \<Rightarrow> loop_state option" where
  "loop_run s [] = Some s"
| "loop_run s (a # as) = (case loop_step s a of None \<Rightarrow> None | Some s' \<Rightarrow> loop_run s' as)"

text \<open>
  What the operating system answers to \<open>socket\<close>, \<open>bind\<close> and \<open>listen\<close>: a negative
  result is a failure.
\<close>

record net =
  socket_result :: int
  bind_result :: int
  listen_result :: int

text \<open>
  \<open>run\<close>: the effects, and whether the call has returned when the schedule ends (it has
  not while the loop is still going). The schedule is that of the accept loop, which
  \<open>run\<close> enters with \<open>running_\<close> set to \<open>true\<close> (its first statement).
\<close>

definition run :: "InferenceServer \<Rightarrow> net \<Rightarrow> action list \<Rightarrow> (effect list \<times> bool) option" where
  "run srv os schedule =
     (if socket_result os < 0 then Some ([Cerr ''Error creating socket''], True)
      else if bind_result os < 0 then Some ([Cerr ''Error binding socket'', Close_server], True)
      else if listen_result os < 0 then Some ([Cerr ''Error listening on socket'', Close_server], True)
      else
        (case loop_run
                \<lparr> flag = True, pos = At_test,
                  effects = [Cout (''Server listening on port '' @ to_string (port srv))] \<rparr>
                schedule of
           None \<Rightarrow> None
         | Some s \<Rightarrow> Some (effects s, pos s = Loop_exited)))"

subsection \<open>main (main.cpp)\<close>

text \<open>
  \<open>std::atoi\<close>, as glibc computes it: \<open>strtol\<close> in base 10 (white space, a sign, digits;
  the result kept within \<open>long\<close>), converted to \<open>int\<close>.
\<close>

definition atoi :: "string \<Rightarrow> int" where
  "atoi str =
     (let s0 = dropWhile isspace str;
          neg = (case s0 of [] \<Rightarrow> False | c # cs \<Rightarrow> c = CHR ''-'');
          s1 = (case s0 of [] \<Rightarrow> [] | c # cs \<Rightarrow> if c = CHR ''-'' \<or> c = CHR ''+'' then cs else s0);
          n = digits_val (takeWhile isdigit s1);
          l = max (- (2 ^ 63)) (min (2 ^ 63 - 1) (if neg then - n else n))
      in (l + 2 ^ 31) mod 2 ^ 32 - 2 ^ 31)"

definition print_usage :: "string \<Rightarrow> effect list" where
  "print_usage program_name =
     [Cout (''Usage: '' @ program_name @ '' [options]''),
      Cout ''Options:'',
      Cout ''  --model <path>    Path to TorchScript model file (default: financial_model.pt)'',
      Cout ''  --port <port>     Port to listen on (default: 8888)'',
      Cout ''  --help            Show this help message'']"

text \<open>
  The loop over the arguments after \<open>argv[0]\<close>: either \<open>main\<close> returns from inside it
  (\<open>Inl\<close>, with what was printed and the status), or it ends with a model path and a port.
\<close>

fun parse_args :: "string \<Rightarrow> string list \<Rightarrow> string \<Rightarrow> int \<Rightarrow> (effect list \<times> int) + (string \<times> int)" where
  "parse_args program_name [] model_path_arg port_arg = Inr (model_path_arg, port_arg)"
| "parse_args program_name (arg # rest) model_path_arg port_arg =
     (if arg = ''--help'' \<or> arg = ''-h'' then Inl (print_usage program_name, 0)
      else if arg = ''--model'' \<and> rest \<noteq> [] then parse_args program_name (tl rest) (hd rest) port_arg
      else if arg = ''--port'' \<and> rest \<noteq> [] then parse_args program_name (tl rest) model_path_arg (atoi (hd rest))
      else Inl (Cerr (''Unknown argument: '' @ arg) # print_usage program_name, 1))"

text \<open>
  \<open>main\<close> on its arguments, with the file system's answer to \<open>torch::jit::load\<close>, the
  operating system's answers, and the schedule of the accept loop. The result is what
  was printed and the status \<open>main\<close> returns, \<open>None\<close> while the server is still running
  when the schedule ends. (The signal handler, which calls \<open>stop()\<close> and then
  \<open>exit(0)\<close>, is not part of this function.)
\<close>

definition main ::
  "string list \<Rightarrow> (string \<Rightarrow> exn + Module) \<Rightarrow> net \<Rightarrow> action list \<Rightarrow> effect list \<times> int option" where
  "main argv jit_load os schedule =
     (case parse_args (hd argv) (tl argv) ''financial_model.pt'' 8888 of
        Inl (fx, status) \<Rightarrow> (fx, Some status)
      | Inr (path, p) \<Rightarrow>
          if p \<le> 0 \<or> 65535 < p then ([Cerr (''Invalid port number: '' @ to_string p)], Some 1)
          else
            (let banner =
                   [Cout ''=== Financial AI Inference Server ==='',
                    Cout (''Model: '' @ path),
                    Cout (''Port: '' @ to_string p),
                    Cout ''====================================='']
             in case initialize jit_load (InferenceServer_new path p) of
                  (fx, ok, server) \<Rightarrow>
                    if \<not> ok then (banner @ fx @ [Cerr ''Failed to initialize server''], Some 1)
                    else
                      (let started =
                             [Cout (CHR 0x0A # ''Server started successfully!''),
                              Cout (''To test the server, send a POST request to http://localhost:'' @
                                    to_string p),
                              Cout ''Example payload: {\"features\": [1.0, 2.0, 3.0, ...]}'',
                              Cout (CHR 0x0A # ''Press Ctrl+C to stop the server.'' @ [CHR 0x0A])]
                       in case run server os schedule of
                            None \<Rightarrow> (banner @ fx @ started, None)
                          | Some (rfx, returned) \<Rightarrow>
                              (banner @ fx @ started @ rfx, if returned then Some 0 else None))))"

section \<open>What the matcher accepts\<close>

text \<open>
  The language of a pattern, in the usual sense: the texts it can match. The matcher is
  sound for it: what it consumes is a text of the language of its stack.
\<close>

definition conc :: "string set \<Rightarrow> string set \<Rightarrow> string set" where
  "conc A B = {u @ v | u v. u \<in> A \<and> v \<in> B}"

definition langs :: "string set list \<Rightarrow> string set" where
  "langs ls = foldr conc ls {[]}"

fun rx_lang :: "rx \<Rightarrow> string set" where
  "rx_lang (One a) = {[c] | c. cls_match a c}"
| "rx_lang (Star a) = {w. \<forall>c \<in> set w. cls_match a c}"
| "rx_lang (Plus a) = {w. w \<noteq> [] \<and> (\<forall>c \<in> set w. cls_match a c)}"
| "rx_lang (Opt rs) = insert [] (langs (map rx_lang rs))"
| "rx_lang (Grp n rs) = langs (map rx_lang rs)"

fun frame_lang :: "frame \<Rightarrow> string set" where
  "frame_lang (Rx r) = rx_lang r"
| "frame_lang (Mark n s) = {[]}"

lemma langs_Nil: "langs [] = {[]}"
  by (simp add: langs_def)

lemma langs_Cons: "langs (A # ls) = conc A (langs ls)"
  by (simp add: langs_def)

lemma conc_unit: "conc {[]} B = B"
  by (auto simp: conc_def)

lemma conc_assoc: "conc (conc A B) C = conc A (conc B C)"
proof
  show "conc (conc A B) C \<subseteq> conc A (conc B C)"
    by (fastforce simp: conc_def)
  show "conc A (conc B C) \<subseteq> conc (conc A B) C"
  proof
    fix w assume "w \<in> conc A (conc B C)"
    then obtain a b c where "w = a @ b @ c" "a \<in> A" "b \<in> B" "c \<in> C"
      by (auto simp: conc_def)
    then have "w = (a @ b) @ c \<and> a @ b \<in> conc A B \<and> c \<in> C"
      by (auto simp: conc_def)
    then show "w \<in> conc (conc A B) C"
      unfolding conc_def [of "conc A B" C] by blast
  qed
qed

lemma langs_append: "langs (xs @ ys) = conc (langs xs) (langs ys)"
  by (induction xs) (simp_all add: langs_Nil langs_Cons conc_unit conc_assoc)

lemma concI: "u \<in> A \<Longrightarrow> v \<in> B \<Longrightarrow> u @ v \<in> conc A B"
  by (auto simp: conc_def)

lemma concE: "w \<in> conc A B \<Longrightarrow> (\<And>u v. w = u @ v \<Longrightarrow> u \<in> A \<Longrightarrow> v \<in> B \<Longrightarrow> P) \<Longrightarrow> P"
  by (auto simp: conc_def)

lemma stack_lang_Rx: "map (frame_lang \<circ> Rx) rs = map rx_lang rs"
  by simp

lemma stack_lang_map_Rx: "map frame_lang (map Rx rs) = map rx_lang rs"
  by simp

lemma rmatch_sound:
  "rmatch k s g = Some (r, g') \<Longrightarrow> \<exists>m. s = m @ r \<and> m \<in> langs (map frame_lang k)"
proof (induction k s g arbitrary: r g' rule: rmatch.induct)
  case (1 s g)
  then show ?case by (simp add: langs_Nil)
next
  case (2 a k g)
  then show ?case by simp
next
  case (3 a k c cs g)
  from "3.prems" have m: "cls_match a c" and r: "rmatch k cs g = Some (r, g')"
    by (simp_all split: if_splits)
  from "3.IH" [OF m r] obtain m' where cs: "cs = m' @ r" and m': "m' \<in> langs (map frame_lang k)"
    by blast
  from m have "[c] \<in> rx_lang (One a)" by simp
  from concI [OF this m'] cs show ?case
    by (intro exI [of _ "c # m'"]) (simp add: langs_Cons del: rx_lang.simps)
next
  case (4 a k g)
  from "4.prems" have "rmatch k [] g = Some (r, g')" by simp
  from "4.IH" [OF this] obtain m where e: "[] = m @ r" and m: "m \<in> langs (map frame_lang k)"
    by blast
  have "[] \<in> rx_lang (Star a)" by simp
  from concI [OF this m] e show ?case
    by (intro exI [of _ m]) (simp add: langs_Cons del: rx_lang.simps)
next
  case (5 a k c cs g)
  show ?case
  proof (cases "cls_match a c \<and> rmatch (Rx (Star a) # k) cs g \<noteq> None")
    case True
    with "5.prems" have r: "rmatch (Rx (Star a) # k) cs g = Some (r, g')"
      by (auto split: option.splits)
    from True have m: "cls_match a c" by simp
    from "5.IH"(1) [OF m r] obtain m' where cs: "cs = m' @ r"
      and m': "m' \<in> conc (rx_lang (Star a)) (langs (map frame_lang k))"
      by (auto simp: langs_Cons simp del: rx_lang.simps)
    from m' obtain u v where uv: "m' = u @ v" "u \<in> rx_lang (Star a)" "v \<in> langs (map frame_lang k)"
      by (rule concE)
    from uv(2) m have "c # u \<in> rx_lang (Star a)" by simp
    from concI [OF this uv(3)] cs uv(1) show ?thesis
      by (intro exI [of _ "c # m'"]) (simp add: langs_Cons del: rx_lang.simps)
  next
    case False
    with "5.prems" have r: "rmatch k (c # cs) g = Some (r, g')"
      by (auto split: if_splits option.splits)
    have "\<exists>m. c # cs = m @ r \<and> m \<in> langs (map frame_lang k)"
    proof (cases "cls_match a c")
      case True
      with False have "rmatch (Rx (Star a) # k) cs g = None" by blast
      from "5.IH"(2) [OF True this r] show ?thesis .
    next
      case f: False
      from "5.IH"(3) [OF f r] show ?thesis .
    qed
    then obtain m where e: "c # cs = m @ r" and m: "m \<in> langs (map frame_lang k)" by blast
    have "[] \<in> rx_lang (Star a)" by simp
    from concI [OF this m] e show ?thesis
      by (intro exI [of _ m]) (simp add: langs_Cons del: rx_lang.simps)
  qed
next
  case (6 a k s g)
  from "6.prems" have "rmatch (Rx (One a) # Rx (Star a) # k) s g = Some (r, g')" by simp
  from "6.IH" [OF this] obtain m where s: "s = m @ r"
    and m: "m \<in> conc (rx_lang (One a)) (conc (rx_lang (Star a)) (langs (map frame_lang k)))"
    by (auto simp: langs_Cons simp del: rx_lang.simps)
  from m obtain u w where uw: "m = u @ w" "u \<in> rx_lang (One a)" "w \<in> conc (rx_lang (Star a)) (langs (map frame_lang k))"
    by (rule concE)
  from uw(3) obtain v x where vx: "w = v @ x" "v \<in> rx_lang (Star a)" "x \<in> langs (map frame_lang k)"
    by (rule concE)
  from uw(2) vx(2) have "u @ v \<in> rx_lang (Plus a)" by auto
  from concI [OF this vx(3)] s uw(1) vx(1) show ?case
    by (intro exI [of _ m]) (simp add: langs_Cons del: rx_lang.simps)
next
  case (7 rs k s g)
  show ?case
  proof (cases "rmatch (map Rx rs @ k) s g")
    case None
    with "7.prems" have r: "rmatch k s g = Some (r, g')" by simp
    from "7.IH"(2) [OF None r] obtain m where e: "s = m @ r" and m: "m \<in> langs (map frame_lang k)" by blast
    have "[] \<in> rx_lang (Opt rs)" by simp
    from concI [OF this m] e show ?thesis
      by (intro exI [of _ m]) (simp add: langs_Cons del: rx_lang.simps)
  next
    case (Some p)
    with "7.prems" have r: "rmatch (map Rx rs @ k) s g = Some (r, g')" by simp
    from "7.IH"(1) [OF r] obtain m where s: "s = m @ r"
      and m: "m \<in> conc (langs (map rx_lang rs)) (langs (map frame_lang k))"
      by (auto simp: langs_append stack_lang_Rx)
    from m obtain u v where uv: "m = u @ v" "u \<in> langs (map rx_lang rs)" "v \<in> langs (map frame_lang k)"
      by (rule concE)
    from uv(2) have "u \<in> rx_lang (Opt rs)" by simp
    from concI [OF this uv(3)] s uv(1) show ?thesis
      by (intro exI [of _ m]) (simp add: langs_Cons del: rx_lang.simps)
  qed
next
  case (8 n rs k s g)
  from "8.prems" have "rmatch (map Rx rs @ Mark n s # k) s g = Some (r, g')" by simp
  from "8.IH" [OF this] obtain m where s: "s = m @ r"
    and m: "m \<in> conc (langs (map rx_lang rs)) (conc {[]} (langs (map frame_lang k)))"
    by (auto simp: langs_append langs_Cons stack_lang_Rx)
  then have "m \<in> conc (rx_lang (Grp n rs)) (langs (map frame_lang k))"
    by (simp add: conc_unit)
  with s show ?case
    by (intro exI [of _ m]) (simp add: langs_Cons del: rx_lang.simps)
next
  case (9 n s0 k s g)
  from "9.prems" have "rmatch k s (g(n \<mapsto> take (length s0 - length s) s0)) = Some (r, g')" by simp
  from "9.IH" [OF this] obtain m where "s = m @ r" and "m \<in> langs (map frame_lang k)"
    by blast
  then show ?case
    by (intro exI [of _ m]) (simp add: langs_Cons conc_unit)
qed


lemma rmatch_suffix: "rmatch k s g = Some (r, g') \<Longrightarrow> take (length s - length r) s @ r = s"
  by (drule rmatch_sound) auto

subsection \<open>The numeric tokens\<close>

lemma digit_range: "cls_match (Range CHR ''0'' CHR ''9'') c = isdigit c"
  by (cases c) (auto simp: isdigit_def)

text \<open>
  A text matched by \<open>number_regex\<close> is an optional sign, digits, an optional point, at
  least one digit, and a rest (the exponent).
\<close>

lemma number_regex_shape:
  assumes "m \<in> langs (map rx_lang number_regex)"
  shows "\<exists>sg d1 dt d2 ex.
           m = sg @ d1 @ dt @ d2 @ ex \<and> (sg = [] \<or> sg = ''-'' \<or> sg = ''+'') \<and>
           (\<forall>c \<in> set d1. isdigit c) \<and> (dt = [] \<or> dt = ''.'') \<and>
           d2 \<noteq> [] \<and> (\<forall>c \<in> set d2. isdigit c)"
proof -
  let ?D = "Range CHR ''0'' CHR ''9''"
  from assms have "m \<in> conc (rx_lang (Opt [One (Set ''-+'')])) (conc (rx_lang (Star ?D))
                     (conc (rx_lang (Opt [One (Lit CHR ''.'')])) (conc (rx_lang (Plus ?D))
                        (langs (map rx_lang (drop 4 number_regex))))))"
    by (simp add: number_regex_def langs_Cons del: rx_lang.simps)
  then obtain sg d1 dt d2 ex where m: "m = sg @ d1 @ dt @ d2 @ ex"
    and 1: "sg \<in> rx_lang (Opt [One (Set ''-+'')])"
    and 2: "d1 \<in> rx_lang (Star ?D)"
    and 3: "dt \<in> rx_lang (Opt [One (Lit CHR ''.'')])"
    and 4: "d2 \<in> rx_lang (Plus ?D)"
    by (elim concE) simp
  from 1 have sg: "sg = [] \<or> sg = ''-'' \<or> sg = ''+''"
    by (auto simp: langs_Cons langs_Nil conc_def)
  from 3 have dt: "dt = [] \<or> dt = ''.''"
    by (auto simp: langs_Cons langs_Nil conc_def)
  from 2 have d1: "\<forall>c \<in> set d1. isdigit c"
    by (simp add: digit_range del: cls_match.simps)
  from 4 have d2: "d2 \<noteq> [] \<and> (\<forall>c \<in> set d2. isdigit c)"
    by (simp add: digit_range del: cls_match.simps)
  from m sg d1 dt d2 show ?thesis by blast
qed

text \<open>The head of a number after its sign: a digit, or a point and a digit.\<close>

fun starts_numeric :: "string \<Rightarrow> bool" where
  "starts_numeric [] = False"
| "starts_numeric [c] = isdigit c"
| "starts_numeric (c # d # cs) = (isdigit c \<or> (c = CHR ''.'' \<and> isdigit d))"

definition numeric_text :: "string \<Rightarrow> bool" where
  "numeric_text t =
     (case t of
        [] \<Rightarrow> False
      | c # cs \<Rightarrow> if c = CHR ''-'' \<or> c = CHR ''+'' then starts_numeric cs else starts_numeric t)"

lemma starts_numeric_append: "starts_numeric u \<Longrightarrow> starts_numeric (u @ v)"
  by (cases u; cases "tl u"; cases v) auto

lemma starts_numeric_digits:
  assumes "\<forall>c \<in> set d1. isdigit c" and "dt = [] \<or> dt = ''.''" and "d2 \<noteq> []" and "\<forall>c \<in> set d2. isdigit c"
  shows "starts_numeric (d1 @ dt @ d2 @ ex)"
proof (cases d1)
  case (Cons c cs)
  with assms(1) have "starts_numeric [c]" by simp
  from starts_numeric_append [OF this] Cons show ?thesis by simp
next
  case Nil
  from assms(3) obtain c cs where d2: "d2 = c # cs" by (cases d2) auto
  with assms(4) have c: "isdigit c" by simp
  from assms(2) show ?thesis
  proof
    assume "dt = []"
    from c have "starts_numeric [c]" by simp
    from starts_numeric_append [OF this] Nil d2 \<open>dt = []\<close> show ?thesis by simp
  next
    assume "dt = ''.''"
    from c have "starts_numeric [CHR ''.'', c]" by simp
    from starts_numeric_append [OF this] Nil d2 \<open>dt = ''.''\<close> show ?thesis by simp
  qed
qed

lemma isdigit_not_sign: "isdigit c \<Longrightarrow> c \<noteq> CHR ''-'' \<and> c \<noteq> CHR ''+'' \<and> c \<noteq> CHR ''.'' \<and> \<not> isspace c"
  by (auto simp: isdigit_def isspace_def)

lemma starts_numeric_not_sign: "starts_numeric (c # cs) \<Longrightarrow> c \<noteq> CHR ''-'' \<and> c \<noteq> CHR ''+'' \<and> \<not> isspace c"
  by (cases cs) (auto simp: isspace_def dest: isdigit_not_sign)

lemma number_regex_numeric_text:
  assumes "m \<in> langs (map rx_lang number_regex)"
  shows "numeric_text m"
proof -
  from number_regex_shape [OF assms] obtain sg d1 dt d2 ex where
    m: "m = sg @ d1 @ dt @ d2 @ ex" and sg: "sg = [] \<or> sg = ''-'' \<or> sg = ''+''"
    and d: "\<forall>c \<in> set d1. isdigit c" "dt = [] \<or> dt = ''.''" "d2 \<noteq> []" "\<forall>c \<in> set d2. isdigit c"
    by blast
  from starts_numeric_digits [OF d] have b: "starts_numeric (d1 @ dt @ d2 @ ex)" .
  then obtain c cs where body: "d1 @ dt @ d2 @ ex = c # cs" by (cases "d1 @ dt @ d2 @ ex") auto
  from b body starts_numeric_not_sign have "c \<noteq> CHR ''-'' \<and> c \<noteq> CHR ''+''" by metis
  with sg m b body show ?thesis
    by (auto simp: numeric_text_def)
qed

lemma numeric_text_digit: "numeric_text t \<Longrightarrow> \<exists>c \<in> set t. isdigit c"
proof -
  have a: "starts_numeric u \<Longrightarrow> \<exists>c \<in> set u. isdigit c" for u
    by (induction u rule: starts_numeric.induct) auto
  assume nt: "numeric_text t"
  then obtain c cs where t: "t = c # cs" by (cases t) (auto simp: numeric_text_def)
  show ?thesis
  proof (cases "c = CHR ''-'' \<or> c = CHR ''+''")
    case True
    with nt t have "starts_numeric cs" by (simp add: numeric_text_def)
    from a [OF this] t show ?thesis by auto
  next
    case False
    with nt t have "starts_numeric t" by (auto simp add: numeric_text_def)
    from a [OF this] show ?thesis .
  qed
qed

subsection \<open>stof on a numeric token\<close>

lemma stof_cases:
  "stof str = Inl (invalid_argument ''stof'') \<or> stof str = Inl (out_of_range ''stof'') \<or>
   (\<exists>neg m e. stof str = Inr (Fin neg m e))"
  by (auto simp: stof_def Let_def split: option.splits)

lemma stof_starts_numeric:
  assumes "starts_numeric body" and "s1 = body"
  shows "takeWhile isdigit s1 \<noteq> [] \<or>
         (case dropWhile isdigit s1 of [] \<Rightarrow> [] | c # cs \<Rightarrow> if c = CHR ''.'' then takeWhile isdigit cs else []) \<noteq> []"
  using assms by (cases body rule: starts_numeric.cases) (auto dest: isdigit_not_sign)

lemma stof_numeric_text:
  assumes "numeric_text t"
  shows "stof t \<noteq> Inl (invalid_argument ''stof'')"
proof -
  from assms obtain c cs where t: "t = c # cs" by (cases t) (auto simp: numeric_text_def)
  show ?thesis
  proof (cases "c = CHR ''-'' \<or> c = CHR ''+''")
    case True
    with assms t have b: "starts_numeric cs" by (simp add: numeric_text_def)
    from True have nsp: "\<not> isspace c" by (auto simp: isspace_def)
    from stof_starts_numeric [OF b refl] nsp True t show ?thesis
      by (auto simp: stof_def Let_def split: option.splits)
  next
    case False
    with assms t have b: "starts_numeric (c # cs)" by (auto simp: numeric_text_def)
    from starts_numeric_not_sign [OF b] have nsp: "\<not> isspace c" by simp
    from stof_starts_numeric [OF b refl] nsp False t show ?thesis
      by (auto simp: stof_def Let_def split: option.splits)
  qed
qed


subsection \<open>Searching\<close>

lemma regex_search_Some:
  "regex_search rs s = Some (m, r, g) \<Longrightarrow>
   \<exists>pre. s = pre @ m @ r \<and> rmatch (map Rx rs) (m @ r) Map.empty = Some (r, g)"
proof (induction s)
  case Nil
  then have r: "rmatch (map Rx rs) [] Map.empty = Some (r, g)" and m: "m = []"
    by (auto split: option.splits)
  from rmatch_suffix [OF r] have "r = []" by simp
  with r m show ?case by simp
next
  case (Cons c cs)
  show ?case
  proof (cases "rmatch (map Rx rs) (c # cs) Map.empty")
    case None
    with Cons.prems have "regex_search rs cs = Some (m, r, g)" by simp
    from Cons.IH [OF this] obtain pre where "cs = pre @ m @ r"
      and "rmatch (map Rx rs) (m @ r) Map.empty = Some (r, g)" by blast
    then show ?thesis by (intro exI [of _ "c # pre"]) simp
  next
    case (Some p)
    with Cons.prems have r: "rmatch (map Rx rs) (c # cs) Map.empty = Some (r, g)"
      and m: "m = take (length (c # cs) - length r) (c # cs)"
      by (cases p; simp)+
    from rmatch_suffix [OF r] m have "c # cs = m @ r" by simp
    with r show ?thesis by (intro exI [of _ "[]"]) simp
  qed
qed

lemma regex_search_None:
  "regex_search rs s = None \<Longrightarrow> rmatch (map Rx rs) (drop i s) Map.empty = None"
proof (induction s arbitrary: i)
  case Nil
  then show ?case by (auto split: option.splits)
next
  case (Cons c cs)
  from Cons.prems have h: "rmatch (map Rx rs) (c # cs) Map.empty = None" and t: "regex_search rs cs = None"
    by (auto split: option.splits)
  show ?case
  proof (cases i)
    case 0
    with h show ?thesis by simp
  next
    case (Suc j)
    with Cons.IH [OF t] show ?thesis by simp
  qed
qed


subsection \<open>The tokens of a text\<close>

declare number_tokens.simps [simp del]

lemma regex_search_number:
  assumes "regex_search number_regex s = Some (m, r, g)"
  shows "numeric_text m \<and> set m \<subseteq> set s \<and> set r \<subseteq> set s"
proof -
  from regex_search_Some [OF assms] obtain pre where s: "s = pre @ m @ r"
    and r: "rmatch (map Rx number_regex) (m @ r) Map.empty = Some (r, g)" by blast
  from rmatch_sound [OF r] obtain m' where "m @ r = m' @ r" and "m' \<in> langs (map rx_lang number_regex)"
    by (auto simp: stack_lang_Rx)
  then have "m \<in> langs (map rx_lang number_regex)" by simp
  from number_regex_numeric_text [OF this] s show ?thesis by auto
qed


lemma number_tokens_no_digit: "\<forall>c \<in> set s. \<not> isdigit c \<Longrightarrow> number_tokens s = []"
proof (cases "regex_search number_regex s")
  case None
  then show ?thesis by (simp add: number_tokens.simps [of s])
next
  case (Some p)
  assume nd: "\<forall>c \<in> set s. \<not> isdigit c"
  obtain m r g where p: "p = (m, r, g)" by (cases p)
  with Some regex_search_number have "numeric_text m" and "set m \<subseteq> set s" by blast+
  with numeric_text_digit nd show ?thesis by blast
qed

lemma star_fallback: "rmatch k s g \<noteq> None \<Longrightarrow> rmatch (Rx (Star a) # k) s g \<noteq> None"
  by (cases s) (auto split: option.splits)

lemma rmatch_number_digit:
  assumes "isdigit d"
  shows "rmatch (map Rx number_regex) (d # rest) g \<noteq> None"
proof -
  let ?D = "Range CHR ''0'' CHR ''9''"
  let ?E = "Rx (Opt [Grp 1 [One (Set ''eE''), Opt [One (Set ''-+'')], Plus ?D]])"
  from assms have d: "cls_match ?D d" by (simp only: digit_range)
  from assms have n: "\<not> cls_match (Set ''-+'') d" "\<not> cls_match (Lit CHR ''.'') d"
    by (auto dest: isdigit_not_sign)
  have "rmatch [?E] rest g \<noteq> None"
    by (simp split: option.splits)
  then have "rmatch [Rx (Star ?D), ?E] rest g \<noteq> None"
    by (rule star_fallback)
  with d have "rmatch [Rx (Plus ?D), ?E] (d # rest) g \<noteq> None"
    by (simp del: cls_match.simps)
  with n have "rmatch [Rx (Opt [One (Lit CHR ''.'')]), Rx (Plus ?D), ?E] (d # rest) g \<noteq> None"
    by (simp del: cls_match.simps)
  then have "rmatch [Rx (Star ?D), Rx (Opt [One (Lit CHR ''.'')]), Rx (Plus ?D), ?E] (d # rest) g \<noteq> None"
    by (rule star_fallback)
  with n show ?thesis
    by (simp add: number_regex_def del: cls_match.simps)
qed

lemma number_tokens_Nil_no_digit:
  assumes "number_tokens s = []"
  shows "\<forall>c \<in> set s. \<not> isdigit c"
proof
  fix c assume "c \<in> set s"
  then obtain i where i: "i < length s" and c: "s ! i = c" by (auto simp: in_set_conv_nth)
  from assms have "regex_search number_regex s = None"
    by (auto simp: number_tokens.simps [of s] split: option.splits)
  then have "rmatch (map Rx number_regex) (drop i s) Map.empty = None"
    by (rule regex_search_None)
  moreover from Cons_nth_drop_Suc [OF i] c have "drop i s = c # drop (Suc i) s"
    by simp
  ultimately have "rmatch (map Rx number_regex) (c # drop (Suc i) s) Map.empty = None"
    by simp
  with rmatch_number_digit show "\<not> isdigit c" by blast
qed

subsection \<open>The text of a group\<close>

fun frame_chars :: "frame \<Rightarrow> char set" where
  "frame_chars (Rx r) = {}"
| "frame_chars (Mark n s0) = set s0"

lemma rmatch_groups:
  "rmatch k s g = Some (r, g') \<Longrightarrow> g' n = Some t \<Longrightarrow>
   g n = Some t \<or> set t \<subseteq> set s \<union> \<Union> (frame_chars ` set k)"
proof (induction k s g arbitrary: r g' rule: rmatch.induct)
  case (5 a k c cs g)
  then show ?case
    by (fastforce split: if_splits option.splits)
next
  case (7 rs k s g)
  then show ?case
    by (fastforce split: option.splits simp: image_Un image_image)
next
  case (8 m rs k s g)
  then show ?case
    by (fastforce simp: image_Un image_image)
next
  case (9 m s0 k s g)
  from "9.prems" have "rmatch k s (g(m \<mapsto> take (length s0 - length s) s0)) = Some (r, g')" by simp
  from "9.IH" [OF this "9.prems"(2)]
  have "(g(m \<mapsto> take (length s0 - length s) s0)) n = Some t \<or> set t \<subseteq> set s \<union> \<Union> (frame_chars ` set k)" .
  then show ?case
    by (auto split: if_splits dest: in_set_takeD)
qed (fastforce split: if_splits)+

lemma regex_search_group:
  assumes "regex_search rs s = Some (m, r, g)" and "g n = Some t"
  shows "set t \<subseteq> set s"
proof -
  from regex_search_Some [OF assms(1)] obtain pre where s: "s = pre @ m @ r"
    and r: "rmatch (map Rx rs) (m @ r) Map.empty = Some (r, g)" by blast
  from rmatch_groups [OF r assms(2)] have "set t \<subseteq> set (m @ r)"
    by (simp add: image_image)
  with s show ?thesis by auto
qed

section \<open>Decimal digits and rounding\<close>

subsection \<open>The value of a digit string\<close>

lemma digit_char_table:
  "\<forall>k < 10. digit_val (''0123456789'' ! k) = int k \<and> (k \<noteq> 0 \<longrightarrow> ''0123456789'' ! k \<noteq> CHR ''0'')"
proof -
  have ten: "(10 :: nat) = Suc (Suc (Suc (Suc (Suc (Suc (Suc (Suc (Suc (Suc 0)))))))))"
    by simp
  show ?thesis
    unfolding ten All_less_Suc by (simp add: digit_val_def)
qed

lemma digit_val_digit_char: "0 \<le> d \<Longrightarrow> d < 10 \<Longrightarrow> digit_val (digit_char d) = d"
  using digit_char_table by (simp add: digit_char_def)

lemma digit_char_nonzero: "0 < d \<Longrightarrow> d < 10 \<Longrightarrow> digit_char d \<noteq> CHR ''0''"
  using digit_char_table by (simp add: digit_char_def)

lemma digits_val_snoc: "digits_val (xs @ [c]) = 10 * digits_val xs + digit_val c"
  by (simp add: digits_val_def)

lemma digits_val_append: "digits_val (a @ b) = digits_val a * 10 ^ length b + digits_val b"
proof (induction b rule: rev_induct)
  case Nil
  then show ?case by (simp add: digits_val_def)
next
  case (snoc c b)
  have "digits_val (a @ b @ [c]) = 10 * digits_val (a @ b) + digit_val c"
    using digits_val_snoc [of "a @ b" c] by simp
  with snoc show ?case
    by (simp add: digits_val_snoc algebra_simps)
qed

subsection \<open>The binade of a quotient\<close>













subsection \<open>Rounding a quotient to an integer\<close>

lemma round_div_nonneg: "0 \<le> n \<Longrightarrow> 0 < d \<Longrightarrow> 0 \<le> round_div n d"
proof -
  assume "0 \<le> n" and "0 < d"
  then have "0 \<le> n div d" by (simp add: pos_imp_zdiv_nonneg_iff)
  then show ?thesis by (simp add: round_div_def Let_def)
qed

text \<open>\<open>round_div\<close> returns the integer nearest to the quotient, the even one at a tie.\<close>

lemma round_div_nearest:
  assumes "0 < d"
  shows "\<bar>rat_of_int (round_div n d) - rat_of_int n / rat_of_int d\<bar> \<le> 1 / 2 \<and>
         (\<bar>rat_of_int (round_div n d) - rat_of_int n / rat_of_int d\<bar> < 1 / 2 \<or> even (round_div n d))"
proof -
  define q where "q = n div d"
  define r where "r = n mod d"
  define t where "t = rat_of_int r / rat_of_int d"
  have n: "n = d * q + r" by (simp add: q_def r_def)
  from assms have r: "0 \<le> r" "r < d" by (simp_all add: r_def)
  from assms have d: "0 < rat_of_int d" by simp
  have x: "rat_of_int n / rat_of_int d = rat_of_int q + t"
    using d by (simp add: n t_def field_simps)
  have t0: "0 \<le> t" using r d by (simp add: t_def)
  have t1: "t < 1" using r d by (simp add: t_def)
  consider "2 * r < d" | "d < 2 * r" | "2 * r = d" by linarith
  then show ?thesis
  proof cases
    case 1
    then have v: "round_div n d = q" by (simp add: round_div_def Let_def q_def r_def)
    from 1 have "rat_of_int (2 * r) < rat_of_int d" by (simp only: of_int_less_iff)
    then have "t < 1 / 2" using d by (simp add: t_def field_simps)
    moreover have "\<bar>rat_of_int (round_div n d) - rat_of_int n / rat_of_int d\<bar> = t"
      using t0 by (simp add: v x)
    ultimately show ?thesis by simp
  next
    case 2
    then have v: "round_div n d = q + 1" by (simp add: round_div_def Let_def q_def r_def)
    from 2 have "rat_of_int d < rat_of_int (2 * r)" by (simp only: of_int_less_iff)
    then have "1 / 2 < t" using d by (simp add: t_def field_simps)
    moreover have "\<bar>rat_of_int (round_div n d) - rat_of_int n / rat_of_int d\<bar> = 1 - t"
      using t1 by (simp add: v x)
    ultimately show ?thesis by simp
  next
    case 3
    then have v: "round_div n d = (if even q then q else q + 1)"
      by (simp add: round_div_def Let_def q_def r_def)
    from 3 have "rat_of_int (2 * r) = rat_of_int d" by (simp only: of_int_eq_iff)
    then have h: "t = 1 / 2" using d by (simp add: t_def field_simps)
    have "\<bar>rat_of_int (round_div n d) - rat_of_int n / rat_of_int d\<bar> = 1 / 2"
      by (simp add: v x h)
    moreover have "even (round_div n d)" by (simp add: v)
    ultimately show ?thesis by simp
  qed
qed


subsection \<open>When strtof reports a range error\<close>











subsection \<open>The number a token denotes\<close>









section \<open>A request of the wrong width\<close>

lemma process_inference_mismatch:
  assumes "0 \<le> get_input_size (model_loader srv)"
      and "get_input_size (model_loader srv) < 2 ^ 31"
      and "int (length input_data) \<noteq> get_input_size (model_loader srv)"
  shows "process_inference srv input_data =
           ([], Inl (runtime_error
                       (''Input size mismatch. Expected '' @
                        to_string (get_input_size (model_loader srv)) @
                        '' but got '' @ to_string (int (length input_data)))))"
proof -
  from assms(1,2) have "get_input_size (model_loader srv) mod 2 ^ 64 = get_input_size (model_loader srv)"
    by simp
  with assms(3) show ?thesis
    by (simp add: process_inference_def)
qed

lemma handle_client_mismatch:
  assumes "0 \<le> get_input_size (model_loader srv)"
      and "get_input_size (model_loader srv) < 2 ^ 31"
      and "received \<noteq> []"
      and "parse_input_json (json_body_of (request_of (take 4095 received))) = Inr input_data"
      and "int (length input_data) \<noteq> get_input_size (model_loader srv)"
  shows "handle_client srv received =
           Cout (''Received request: '' @ take 100 (request_of (take 4095 received)) @ ''...'') #
           handle_client_catch
             (runtime_error
                (''Input size mismatch. Expected '' @
                 to_string (get_input_size (model_loader srv)) @
                 '' but got '' @ to_string (int (length input_data))))"
proof -
  from assms(3) have ne: "take 4095 received \<noteq> []" by (cases received) simp_all
  note pi = process_inference_mismatch [OF assms(1,2,5)]
  show ?thesis
    using ne assms(4) pi
    by (simp add: handle_client_def Let_def)
qed



section \<open>The two branches of the decoder\<close>

text \<open>
  C2 at a failing input. The payload \<open>{"user": 42, "features": []}\<close> contains a
  \<open>"features"\<close> field followed by a bracketed list, which holds no number. The decoder
  returns the vector \<open>[42.0]\<close>, the number of another field.
\<close>

theorem features_branch_missed:
  "parse_input_json ''{\"user\": 42, \"features\": []}'' = Inr [Fin False 21 1]"
  by code_simp

section \<open>Stopping the accept loop\<close>

text \<open>
  C3 at failing inputs. The server listens on port 8888 and the loop is blocked in
  \<open>accept\<close>. Then \<open>stop()\<close> is called, a connection arrives and \<open>accept\<close> returns its
  socket 7: the loop starts the handler thread for it without looking at \<open>running_\<close>,
  and leaves only at the next test (first equation). The same happens when \<open>stop()\<close>
  falls between the test of the flag and the call of \<open>accept\<close>: the call is still made
  (second equation). When no connection arrives after \<open>stop()\<close>, \<open>accept\<close> does not
  return, it has no timeout, and \<open>run\<close> has not returned (third equation).
\<close>

theorem dispatch_after_stop:
  "run (InferenceServer_new ''financial_model.pt'' 8888)
       \<lparr> socket_result = 3, bind_result = 0, listen_result = 0 \<rparr>
       [Test, Call_accept, Stop, Accept 7, Test] =
   Some ([Cout ''Server listening on port 8888'', Dispatch 7, Close_server, Cout ''Server stopped''],
         True)
   \<and> run (InferenceServer_new ''financial_model.pt'' 8888)
       \<lparr> socket_result = 3, bind_result = 0, listen_result = 0 \<rparr>
       [Test, Stop, Call_accept, Accept 7, Test] =
   Some ([Cout ''Server listening on port 8888'', Dispatch 7, Close_server, Cout ''Server stopped''],
         True)
   \<and> run (InferenceServer_new ''financial_model.pt'' 8888)
       \<lparr> socket_result = 3, bind_result = 0, listen_result = 0 \<rparr>
       [Test, Call_accept, Stop] =
   Some ([Cout ''Server listening on port 8888''], False)"
  by code_simp

section \<open>A failed bind\<close>

text \<open>
  C4 at a failing input. The model file loads, \<open>socket\<close> succeeds and \<open>bind\<close> fails:
  \<open>run\<close> reports the failure on \<open>std::cerr\<close> and returns, it has no way to tell its
  caller, and \<open>main\<close> returns 0. When the model file cannot be loaded, the other failure
  at startup, \<open>main\<close> returns 1.
\<close>

theorem bind_failure_exit_status:
  "main [''inference_server'']
        (\<lambda>path. Inr (\<lambda>t. Inr (GenericDict [])))
        \<lparr> socket_result = 3, bind_result = - 1, listen_result = 0 \<rparr>
        [] =
   ([Cout ''=== Financial AI Inference Server ==='',
     Cout ''Model: financial_model.pt'',
     Cout ''Port: 8888'',
     Cout ''====================================='',
     Cout ''Initializing inference server...'',
     Cout ''Loading TorchScript model from: financial_model.pt'',
     Cout ''Model loaded successfully!'',
     Cout ''Server initialized successfully on port 8888'',
     Cout (CHR 0x0A # ''Server started successfully!''),
     Cout ''To test the server, send a POST request to http://localhost:8888'',
     Cout ''Example payload: {\"features\": [1.0, 2.0, 3.0, ...]}'',
     Cout (CHR 0x0A # ''Press Ctrl+C to stop the server.'' @ [CHR 0x0A]),
     Cerr ''Error binding socket'',
     Close_server],
    Some 0)
   \<and> main [''inference_server'']
        (\<lambda>path. Inl (c10_Error ''open file failed''))
        \<lparr> socket_result = 3, bind_result = 0, listen_result = 0 \<rparr>
        [] =
   ([Cout ''=== Financial AI Inference Server ==='',
     Cout ''Model: financial_model.pt'',
     Cout ''Port: 8888'',
     Cout ''====================================='',
     Cout ''Initializing inference server...'',
     Cout ''Loading TorchScript model from: financial_model.pt'',
     Cerr ''Error loading model: open file failed'',
     Cerr ''Failed to load model'',
     Cerr ''Failed to initialize server''],
    Some 1)"
  by code_simp

section \<open>The headers of the two responses\<close>

text \<open>
  C5 at a failing input. The server as \<open>main\<close> sets it up expects 16 features. A request
  with two features is answered from the \<open>catch\<close> block: a status line, \<open>Content-Type\<close>,
  \<open>Content-Length\<close>, a blank line and the body, with no \<open>Access-Control-Allow-Origin\<close>
  header. A request with 16 features is answered on the success path, whose response
  has that header.
\<close>

theorem error_response_headers:
  "handle_client
     (snd (snd (initialize (\<lambda>path. Inr (\<lambda>t. Inr (GenericDict [])))
                  (InferenceServer_new ''financial_model.pt'' 8888))))
     ''{\"features\": [1.0,2.0]}'' =
   [Cout ''Received request: {\"features\": [1.0,2.0]}...'',
    Cerr ''Error handling client: Input size mismatch. Expected 16 but got 2'',
    Send (''HTTP/1.1 500 Internal Server Error'' @ crlf @
          ''Content-Type: application/json'' @ crlf @
          ''Content-Length: 55'' @ crlf @
          crlf @
          ''{\"error\": \"Input size mismatch. Expected 16 but got 2\"}''),
    Close_client]
   \<and> handle_client
     (snd (snd (initialize (\<lambda>path. Inr (\<lambda>t. Inr (GenericDict [])))
                  (InferenceServer_new ''financial_model.pt'' 8888))))
     ''[1,2,3,4,5,6,7,8,9,10,11,12,13,14,15,16]'' =
   [Cout ''Received request: [1,2,3,4,5,6,7,8,9,10,11,12,13,14,15,16]...'',
    Forward (Tensor [1, 16]
               [Fin False 1 0, Fin False 1 1, Fin False 3 0, Fin False 1 2, Fin False 5 0,
                Fin False 3 1, Fin False 7 0, Fin False 1 3, Fin False 9 0, Fin False 5 1,
                Fin False 11 0, Fin False 3 2, Fin False 13 0, Fin False 7 1, Fin False 15 0,
                Fin False 1 4]),
    Send (''HTTP/1.1 200 OK'' @ crlf @
          ''Content-Type: application/json'' @ crlf @
          ''Content-Length: 2'' @ crlf @
          ''Access-Control-Allow-Origin: *'' @ crlf @
          crlf @
          ''{}''),
    Close_client]"
  by code_simp

section \<open>The encoded result\<close>

text \<open>The texts of a list with commas between them.\<close>

fun comma_separated :: "string list \<Rightarrow> string" where
  "comma_separated [] = []"
| "comma_separated [x] = x"
| "comma_separated (x # y # ys) = x @ '','' @ comma_separated (y # ys)"

lemma comma_separated_Cons:
  "comma_separated (x # xs) = x @ concat (map (\<lambda>y. '','' @ y) xs)"
  by (induction xs arbitrary: x) simp_all

lemma values_json_positive:
  "0 < i \<Longrightarrow> values_json i xs = concat (map (\<lambda>x. '','' @ fixed6 x) xs)"
  by (induction xs arbitrary: i) simp_all

lemma values_json_comma_separated: "values_json 0 xs = comma_separated (map fixed6 xs)"
proof (cases xs)
  case Nil
  then show ?thesis by simp
next
  case (Cons x xs')
  then show ?thesis
    by (simp add: values_json_positive comma_separated_Cons comp_def)
qed

text \<open>One entry of the object: the quoted name, a colon and the bracketed list of row 0.\<close>

definition json_entry :: "string \<times> Tensor \<Rightarrow> string" where
  "json_entry item =
     ''\"'' @ fst item @ ''\":['' @
     comma_separated (map fixed6 (take (sizes (snd item) ! 1) (elems (snd item)))) @ '']''"

text \<open>A tensor of two dimensions whose first row can be read.\<close>

definition has_row0 :: "Tensor \<Rightarrow> bool" where
  "has_row0 t = (length (sizes t) = 2 \<and> sizes t ! 1 \<le> length (elems t))"

lemma accessor_row0_ok: "has_row0 t \<Longrightarrow> accessor_row0 t = Inr (take (sizes t ! 1) (elems t))"
proof -
  assume h: "has_row0 t"
  then obtain n m where nm: "sizes t = [n, m]"
    by (cases "sizes t"; cases "tl (sizes t)") (auto simp: has_row0_def)
  with h show ?thesis
    by (simp add: accessor_row0_def has_row0_def)
qed

lemma items_json_False:
  "\<forall>item \<in> set outputs. has_row0 (snd item) \<Longrightarrow>
   items_json False outputs = Inr (concat (map (\<lambda>item. '','' @ json_entry item) outputs))"
proof (induction outputs)
  case Nil
  then show ?case by simp
next
  case (Cons item outputs)
  obtain key tensor where item: "item = (key, tensor)" by (cases item)
  from Cons.prems item have "has_row0 tensor" by simp
  from accessor_row0_ok [OF this] Cons item show ?case
    by (simp add: json_entry_def values_json_comma_separated)
qed

lemma items_json_True:
  "\<forall>item \<in> set outputs. has_row0 (snd item) \<Longrightarrow>
   items_json True outputs = Inr (comma_separated (map json_entry outputs))"
proof (cases outputs)
  case Nil
  then show ?thesis by simp
next
  case (Cons item rest)
  assume a: "\<forall>item \<in> set outputs. has_row0 (snd item)"
  obtain key tensor where item: "item = (key, tensor)" by (cases item)
  from a Cons item have t: "has_row0 tensor" and r: "\<forall>item \<in> set rest. has_row0 (snd item)" by simp_all
  from accessor_row0_ok [OF t] items_json_False [OF r] Cons item show ?thesis
    by (simp add: json_entry_def values_json_comma_separated comma_separated_Cons comp_def)
qed

lemma digit_char_isdigit: "isdigit (digit_char (n mod 10))"
proof -
  have "nat (n mod 10) < 10" by simp
  then have "''0123456789'' ! nat (n mod 10) \<in> set ''0123456789''"
    by (intro nth_mem) simp
  then show ?thesis by (simp only: isdigit_def digit_char_def)
qed

lemma digit_char_small: "n < 10 \<Longrightarrow> isdigit (digit_char n)"
proof -
  assume "n < 10"
  then have "nat n < 10" by simp
  then have "''0123456789'' ! nat n \<in> set ''0123456789''"
    by (intro nth_mem) simp
  then show ?thesis by (simp only: isdigit_def digit_char_def)
qed

lemma decimal_digits: "decimal n \<noteq> [] \<and> (\<forall>c \<in> set (decimal n). isdigit c)"
proof (induction n rule: decimal.induct)
  case (1 n)
  show ?case
  proof (cases "n < 10")
    case True
    then show ?thesis by (simp add: decimal.simps [of n] digit_char_small)
  next
    case False
    with 1 show ?thesis by (simp add: decimal.simps [of n] digit_char_isdigit)
  qed
qed

lemma fixed_digits_digits: "length (fixed_digits w n) = w \<and> (\<forall>c \<in> set (fixed_digits w n). isdigit c)"
  by (induction w arbitrary: n) (simp_all add: digit_char_isdigit)

lemma digits_val_decimal: "0 \<le> n \<Longrightarrow> digits_val (decimal n) = n"
proof (induction n rule: decimal.induct)
  case (1 n)
  show ?case
  proof (cases "n < 10")
    case True
    with "1.prems" digit_val_digit_char [of n] show ?thesis
      by (simp add: decimal.simps [of n] digits_val_def)
  next
    case False
    with "1.prems" have "0 \<le> n div 10" by simp
    with "1.IH" False have ih: "digits_val (decimal (n div 10)) = n div 10" by simp
    have "digit_val (digit_char (n mod 10)) = n mod 10"
      by (rule digit_val_digit_char) simp_all
    with ih False show ?thesis
      by (simp add: decimal.simps [of n] digits_val_snoc)
  qed
qed

lemma digits_val_fixed_digits: "digits_val (fixed_digits w n) = n mod 10 ^ w"
proof (induction w arbitrary: n)
  case 0
  then show ?case by (simp add: digits_val_def)
next
  case (Suc w)
  have d: "digit_val (digit_char (n mod 10)) = n mod 10"
    by (rule digit_val_digit_char) simp_all
  have "n mod (10 * 10 ^ w) = 10 * (n div 10 mod 10 ^ w) + n mod 10"
    by (rule zmod_zmult2_eq) simp
  with Suc [of "n div 10"] d show ?case
    by (simp add: digits_val_snoc)
qed

lemma decimal_canonical: "0 \<le> n \<Longrightarrow> decimal n = ''0'' \<or> hd (decimal n) \<noteq> CHR ''0''"
proof (induction n rule: decimal.induct)
  case (1 n)
  show ?case
  proof (cases "n < 10")
    case True
    then have d: "decimal n = [digit_char n]"
      by (simp add: decimal.simps [of n])
    show ?thesis
    proof (cases "n = 0")
      case True
      with d show ?thesis by (simp add: digit_char_def)
    next
      case False
      with "1.prems" \<open>n < 10\<close> have "digit_char n \<noteq> CHR ''0''"
        by (simp add: digit_char_nonzero)
      with d show ?thesis by simp
    qed
  next
    case False
    with "1.prems" have p: "0 \<le> n div 10" and q: "n div 10 \<noteq> 0" by simp_all
    from "1.IH" False p have "decimal (n div 10) = ''0'' \<or> hd (decimal (n div 10)) \<noteq> CHR ''0''"
      by simp
    moreover have "decimal (n div 10) \<noteq> ''0''"
    proof
      assume "decimal (n div 10) = ''0''"
      then have "digits_val (decimal (n div 10)) = 0" by (simp add: digits_val_def digit_val_def)
      with digits_val_decimal [OF p] q show False by simp
    qed
    moreover have "decimal (n div 10) \<noteq> []" using decimal_digits by blast
    ultimately show ?thesis using False
      by (simp add: decimal.simps [of n])
  qed
qed

text \<open>The magnitude of the finite value \<open>Fin neg m e\<close>.\<close>

definition float_magnitude :: "int \<Rightarrow> int \<Rightarrow> rat" where
  "float_magnitude m e = (if 0 \<le> e then of_int m * 2 ^ nat e else of_int m / 2 ^ nat (- e))"

text \<open>
  What is written for a finite number: a minus sign when the sign bit is set, then a
  decimal number without leading zeros and with six digits after the point. Read
  without the point, in units of the sixth decimal, that number is the integer nearest
  to the magnitude times \<open>10 ^ 6\<close>, the even one at a tie.
\<close>

definition written_as :: "bool \<Rightarrow> int \<Rightarrow> int \<Rightarrow> string \<Rightarrow> string \<Rightarrow> bool" where
  "written_as neg m e whole fraction =
     (fixed6 (Fin neg m e) = (if neg then ''-'' else []) @ whole @ ''.'' @ fraction \<and>
      whole \<noteq> [] \<and> list_all isdigit whole \<and> (whole = ''0'' \<or> hd whole \<noteq> CHR ''0'') \<and>
      length fraction = 6 \<and> list_all isdigit fraction \<and>
      \<bar>rat_of_int (digits_val (whole @ fraction)) - float_magnitude m e * 10 ^ 6\<bar> \<le> 1 / 2 \<and>
      (\<bar>rat_of_int (digits_val (whole @ fraction)) - float_magnitude m e * 10 ^ 6\<bar> < 1 / 2 \<or>
       even (digits_val (whole @ fraction))))"

lemma fixed6_Fin:
  assumes "0 \<le> m"
  shows "\<exists>whole fraction. written_as neg m e whole fraction"
proof -
  define n where "n = (if 0 \<le> e then m * 2 ^ nat e * 10 ^ 6 else round_div (m * 10 ^ 6) (2 ^ nat (- e)))"
  define whole where "whole = decimal (n div 10 ^ 6)"
  define fraction where "fraction = fixed_digits 6 (n mod 10 ^ 6)"
  have f: "fixed6 (Fin neg m e) = (if neg then ''-'' else []) @ whole @ ''.'' @ fraction"
    by (simp add: fixed6_def n_def whole_def fraction_def Let_def)
  from assms have n0: "0 \<le> n"
    by (simp add: n_def round_div_nonneg)
  then have w0: "0 \<le> n div 10 ^ 6" by (simp add: pos_imp_zdiv_nonneg_iff)
  have lf: "length fraction = 6" using fixed_digits_digits [of 6 "n mod 10 ^ 6"] by (simp add: fraction_def)
  have "digits_val (whole @ fraction) = n div 10 ^ 6 * 10 ^ 6 + n mod 10 ^ 6 mod 10 ^ 6"
    by (simp only: digits_val_append lf whole_def digits_val_decimal [OF w0])
       (simp add: fraction_def digits_val_fixed_digits)
  then have v: "digits_val (whole @ fraction) = n" by simp
  have near: "\<bar>rat_of_int n - float_magnitude m e * 10 ^ 6\<bar> \<le> 1 / 2 \<and>
              (\<bar>rat_of_int n - float_magnitude m e * 10 ^ 6\<bar> < 1 / 2 \<or> even n)"
  proof (cases "0 \<le> e")
    case True
    then show ?thesis by (simp add: n_def float_magnitude_def)
  next
    case False
    have p: "(0::int) < 2 ^ nat (- e)" by simp
    have "float_magnitude m e * 10 ^ 6 = rat_of_int (m * 10 ^ 6) / rat_of_int (2 ^ nat (- e))"
      using False by (simp add: float_magnitude_def)
    with round_div_nearest [OF p, of "m * 10 ^ 6"] False show ?thesis
      by (auto simp: n_def)
  qed
  have "written_as neg m e whole fraction"
    unfolding written_as_def v
  proof (intro conjI)
    show "fixed6 (Fin neg m e) = (if neg then ''-'' else []) @ whole @ ''.'' @ fraction" by (rule f)
    show "whole \<noteq> []" using decimal_digits [of "n div 10 ^ 6"] by (simp add: whole_def)
    show "list_all isdigit whole" using decimal_digits [of "n div 10 ^ 6"] by (simp add: whole_def list_all_iff)
    show "whole = ''0'' \<or> hd whole \<noteq> CHR ''0''" using decimal_canonical [OF w0] by (simp add: whole_def)
    show "length fraction = 6" by (rule lf)
    show "list_all isdigit fraction"
      using fixed_digits_digits [of 6 "n mod 10 ^ 6"] by (simp add: fraction_def list_all_iff)
    show "\<bar>rat_of_int n - float_magnitude m e * 10 ^ 6\<bar> \<le> 1 / 2" using near by simp
    show "\<bar>rat_of_int n - float_magnitude m e * 10 ^ 6\<bar> < 1 / 2 \<or> even n" using near by simp
  qed
  then show ?thesis by blast
qed

text \<open>
  C6, as the code has it. For a result whose tensors have two dimensions and a readable
  first row, \<open>outputs_to_json\<close> returns the object made of one entry per output, in the
  order of the dictionary, separated by commas: the quoted name, a colon, and the
  bracketed, comma-separated list of the numbers of row 0. Every finite number is
  written with exactly six digits after the point, as the decimal nearest to its value.
  An infinity is written \<open>inf\<close> or \<open>-inf\<close> and a NaN \<open>nan\<close> or \<open>-nan\<close>. The result
  \<open>{"score": [0.42]}\<close>, where \<open>0.42f\<close> is \<open>14092861 * 2 ^ (- 25)\<close>, is encoded as
  \<open>{"score":[0.420000]}\<close>.
\<close>

theorem outputs_to_json_format:
  "(\<forall>outputs. (\<forall>item \<in> set outputs. has_row0 (snd item)) \<longrightarrow>
      outputs_to_json outputs = Inr (''{'' @ comma_separated (map json_entry outputs) @ ''}''))
   \<and> (\<forall>neg m e. 0 \<le> m \<longrightarrow> (\<exists>whole fraction. written_as neg m e whole fraction))
   \<and> (\<forall>neg. fixed6 (Infty neg) = (if neg then ''-inf'' else ''inf'') \<and>
             fixed6 (NaN neg) = (if neg then ''-nan'' else ''nan''))
   \<and> outputs_to_json [(''score'', Tensor [1, 1] [Fin False 14092861 (- 25)])] =
       Inr ''{\"score\":[0.420000]}''"
proof (intro conjI allI impI)
  fix outputs :: Dict
  assume "\<forall>item \<in> set outputs. has_row0 (snd item)"
  from items_json_True [OF this]
  show "outputs_to_json outputs = Inr (''{'' @ comma_separated (map json_entry outputs) @ ''}'')"
    by (simp add: outputs_to_json_def)
next
  fix neg :: bool and m e :: int
  assume "0 \<le> m"
  then show "\<exists>whole fraction. written_as neg m e whole fraction"
    by (rule fixed6_Fin)
next
  fix neg
  show "fixed6 (Infty neg) = (if neg then ''-inf'' else ''inf'')"
    by (simp add: fixed6_def)
  show "fixed6 (NaN neg) = (if neg then ''-nan'' else ''nan'')"
    by (simp add: fixed6_def)
next
  show "outputs_to_json [(''score'', Tensor [1, 1] [Fin False 14092861 (- 25)])] =
       Inr ''{\"score\":[0.420000]}''"
    by code_simp
qed

theorem outputs_to_json_format_witness:
  "outputs_to_json
     [(''score'', Tensor [1, 2] [Fin False 14092861 (- 25), Fin True 3 (- 1)]),
      (''risk'', Tensor [1, 1] [Fin False 1 0])] =
   Inr ''{\"score\":[0.420000,-1.500000],\"risk\":[1.000000]}''"
proof -
  let ?outputs = "[(''score'', Tensor [1, 2] [Fin False 14092861 (- 25), Fin True 3 (- 1)]),
      (''risk'', Tensor [1, 1] [Fin False 1 0])]"
  have h: "\<forall>item \<in> set ?outputs. has_row0 (snd item)"
    by (simp add: has_row0_def)
  have e: "''{'' @ comma_separated (map json_entry ?outputs) @ ''}'' =
           ''{\"score\":[0.420000,-1.500000],\"risk\":[1.000000]}''"
    by code_simp
  from outputs_to_json_format have
    "(\<forall>item \<in> set ?outputs. has_row0 (snd item)) \<longrightarrow>
      outputs_to_json ?outputs = Inr (''{'' @ comma_separated (map json_entry ?outputs) @ ''}'')"
    by blast
  with h e show ?thesis by simp
qed

text \<open>
  The claim as stated fails on numbers that are not finite: they are not written with
  six fractional digits.
\<close>

theorem non_finite_counterexample:
  "outputs_to_json [(''score'', Tensor [1, 2] [Infty False, NaN True])] =
   Inr ''{\"score\":[inf,-nan]}''"
  by code_simp

section \<open>Payloads without numbers\<close>

lemma parse_input_json_scan:
  "\<exists>scanned. set scanned \<subseteq> set payload \<and> parse_input_json payload = stof_all (number_tokens scanned)"
proof (cases "regex_search features_regex payload")
  case None
  then show ?thesis by (intro exI [of _ payload]) (simp add: parse_input_json_def)
next
  case (Some p)
  obtain m r g where p: "p = (m, r, g)" by (cases p)
  show ?thesis
  proof (cases "g 1")
    case None
    with Some p show ?thesis by (intro exI [of _ "[]"]) (simp add: parse_input_json_def)
  next
    case (Some t)
    with \<open>regex_search features_regex payload = Some p\<close> p regex_search_group
    have "set t \<subseteq> set payload" by blast
    with Some \<open>regex_search features_regex payload = Some p\<close> p show ?thesis
      by (intro exI [of _ t]) (simp add: parse_input_json_def)
  qed
qed

lemma parse_input_json_no_digit:
  assumes "\<forall>c \<in> set payload. \<not> isdigit c"
  shows "parse_input_json payload = Inr []"
proof -
  from parse_input_json_scan obtain scanned where "set scanned \<subseteq> set payload"
    and p: "parse_input_json payload = stof_all (number_tokens scanned)" by blast
  with assms have "\<forall>c \<in> set scanned. \<not> isdigit c" by blast
  from number_tokens_no_digit [OF this] p show ?thesis by simp
qed

lemma json_body_subset: "set (json_body_of (request_of (take n received))) \<subseteq> set received"
proof -
  have "set (json_body_of r) \<subseteq> set r" for r
    by (auto simp: json_body_of_def split: option.splits dest: in_set_dropD)
  moreover have "set (request_of b) \<subseteq> set b" for b
    by (auto simp: request_of_def dest: set_takeWhileD)
  moreover have "set (take n received) \<subseteq> set received"
    by (rule set_take_subset)
  ultimately show ?thesis by blast
qed

lemma to_string_0: "to_string 0 = ''0''"
  by (simp add: to_string_def decimal.simps [of 0] digit_char_def)

text \<open>
  C7. A payload in which the scan for numbers finds no token is decoded to the empty
  feature vector, without an exception; the width check then throws, for any positive
  expected width, naming that width and the count 0. So a request whose body has no
  token, framed as HTTP or not, is answered with that error.
\<close>

theorem no_tokens_empty_vector:
  assumes "number_tokens payload = []"
      and "received \<noteq> []"
      and "number_tokens (json_body_of (request_of (take 4095 received))) = []"
      and "0 < get_input_size (model_loader srv)"
      and "get_input_size (model_loader srv) < 2 ^ 31"
  shows "parse_input_json payload = Inr [] \<and>
         process_inference srv [] =
           ([], Inl (runtime_error
                       (''Input size mismatch. Expected '' @
                        to_string (get_input_size (model_loader srv)) @ '' but got 0''))) \<and>
         parse_input_json (json_body_of (request_of (take 4095 received))) = Inr [] \<and>
         handle_client srv received =
           Cout (''Received request: '' @ take 100 (request_of (take 4095 received)) @ ''...'') #
           handle_client_catch
             (runtime_error
                (''Input size mismatch. Expected '' @
                 to_string (get_input_size (model_loader srv)) @ '' but got 0''))"
proof -
  from number_tokens_Nil_no_digit [OF assms(1)] have "\<forall>c \<in> set payload. \<not> isdigit c" .
  from parse_input_json_no_digit [OF this] have p1: "parse_input_json payload = Inr []" .
  from number_tokens_Nil_no_digit [OF assms(3)]
  have "\<forall>c \<in> set (json_body_of (request_of (take 4095 received))). \<not> isdigit c" .
  from parse_input_json_no_digit [OF this]
  have p2: "parse_input_json (json_body_of (request_of (take 4095 received))) = Inr []" .
  from assms(4) have w: "0 \<le> get_input_size (model_loader srv)"
    and n: "int (length ([] :: float list)) \<noteq> get_input_size (model_loader srv)" by simp_all
  from process_inference_mismatch [OF w assms(5) n]
  have p3: "process_inference srv [] =
           ([], Inl (runtime_error
                       (''Input size mismatch. Expected '' @
                        to_string (get_input_size (model_loader srv)) @ '' but got 0'')))"
    by (simp add: to_string_0)
  from handle_client_mismatch [OF w assms(5) assms(2) p2 n] p1 p2 p3 show ?thesis
    by (simp add: to_string_0)
qed

text \<open>
  With expected width 3, the request \<open>{}\<close> and a request that sends \<open>{}\<close> after HTTP
  headers are both answered \<open>Expected 3 but got 0\<close>.
\<close>

theorem no_tokens_empty_vector_witness:
  "parse_input_json ''{}'' = Inr [] \<and>
   handle_client
     \<lparr> model_loader = \<lparr> model_path = ''financial_model.pt'', model = default_Module,
                        loaded = True, input_size = 3 \<rparr>,
       port = 8888, running = True \<rparr>
     ''{}'' =
   [Cout ''Received request: {}...'',
    Cerr ''Error handling client: Input size mismatch. Expected 3 but got 0'',
    Send (''HTTP/1.1 500 Internal Server Error'' @ crlf @
          ''Content-Type: application/json'' @ crlf @
          ''Content-Length: 54'' @ crlf @
          crlf @
          ''{\"error\": \"Input size mismatch. Expected 3 but got 0\"}''),
    Close_client] \<and>
   handle_client
     \<lparr> model_loader = \<lparr> model_path = ''financial_model.pt'', model = default_Module,
                        loaded = True, input_size = 3 \<rparr>,
       port = 8888, running = True \<rparr>
     (''POST /predict HTTP/1.1'' @ crlf @ ''Content-Length: 2'' @ crlf @ crlf @ ''{}'') =
   [Cout (''Received request: POST /predict HTTP/1.1'' @ crlf @ ''Content-Length: 2'' @ crlf @ crlf @
          ''{}...''),
    Cerr ''Error handling client: Input size mismatch. Expected 3 but got 0'',
    Send (''HTTP/1.1 500 Internal Server Error'' @ crlf @
          ''Content-Type: application/json'' @ crlf @
          ''Content-Length: 54'' @ crlf @
          crlf @
          ''{\"error\": \"Input size mismatch. Expected 3 but got 0\"}''),
    Close_client]"
proof -
  let ?srv = "\<lparr> model_loader = \<lparr> model_path = ''financial_model.pt'', model = default_Module,
                        loaded = True, input_size = 3 \<rparr>,
       port = 8888, running = True \<rparr>"
  let ?framed = "''POST /predict HTTP/1.1'' @ crlf @ ''Content-Length: 2'' @ crlf @ crlf @ ''{}''"
  have h1: "number_tokens ''{}'' = []" by code_simp
  have h2: "''{}'' \<noteq> []" by simp
  have h3: "number_tokens (json_body_of (request_of (take 4095 ''{}''))) = []" by code_simp
  have h4: "0 < get_input_size (model_loader ?srv)" by (simp add: get_input_size_def)
  have h5: "get_input_size (model_loader ?srv) < 2 ^ 31" by (simp add: get_input_size_def)
  have f2: "?framed \<noteq> []" by simp
  have f3: "number_tokens (json_body_of (request_of (take 4095 ?framed))) = []" by code_simp
  have e1: "to_string 3 = ''3''" by code_simp
  have e3: "to_string 54 = ''54''" by code_simp
  have e4: "request_of ''{}'' = ''{}''" by code_simp
  have e5: "request_of (take 4095 ?framed) = ?framed" by code_simp
  have e6: "take 100 ?framed = ?framed" by code_simp
  note plain = no_tokens_empty_vector [OF h1 h2 h3 h4 h5]
  note framed = no_tokens_empty_vector [OF h1 f2 f3 h4 h5, unfolded e5 e6]
  from plain framed show ?thesis
    by (simp add: handle_client_catch_def Let_def get_input_size_def e1 e3 e4)
qed

section \<open>Tokens that stof rejects\<close>






section \<open>The expected input width\<close>

lemma load_input_size: "input_size (snd (snd (load jit_load ml))) = input_size ml"
  by (simp add: load_def split: sum.split)

lemma loader_step_input_size: "input_size (loader_step ml op) = input_size ml"
  by (cases op) (simp_all add: load_input_size)

lemma loader_steps_input_size: "input_size (foldl loader_step ml ops) = input_size ml"
  by (induction ops arbitrary: ml) (simp_all add: loader_step_input_size)

text \<open>
  C9. Whatever the model path, and whatever sequence of \<open>load\<close> (succeeding or failing)
  and \<open>predict\<close> calls follows the construction, \<open>get_input_size()\<close> returns 16: the
  width is set by the constructor and no operation assigns to it, so the loaded
  artifact never influences it.
\<close>

theorem get_input_size_constant:
  "get_input_size (foldl loader_step (ModelLoader_new path) ops) = 16"
  by (simp add: get_input_size_def loader_steps_input_size ModelLoader_new_def)

theorem get_input_size_constant_witness:
  "get_input_size
     (foldl loader_step (ModelLoader_new ''financial_model.pt'')
        [Load (\<lambda>p. Inl (c10_Error ''open file failed'')),
         Predict (Tensor [1, 2] [Fin False 1 0, Fin False 1 1]),
         Load (\<lambda>p. Inr (\<lambda>t. Inr (GenericDict [(StringValue ''score'', TensorValue t)]))),
         Predict (Tensor [1, 2] [Fin False 1 0, Fin False 1 1])]) = 16"
  by (rule get_input_size_constant)

section \<open>An empty list of features\<close>

















end
